theory Spec2Isabelle
  imports Main "HOL-Library.Sublist" "HOL-Library.Word"
begin

section \<open>The creative-generation route: a shallow embedding of route.ts\<close>

text \<open>
  The repository is one request handler, \<^verbatim>\<open>POST\<close> in
  \<^verbatim>\<open>src/app/api/generate-product-image/route.ts\<close>, with two helpers,
  \<^verbatim>\<open>urlToInlineData\<close> and \<^verbatim>\<open>extractJson\<close>. The handler talks to a
  document store, an image host, a generation model and the network. Each of these
  collaborators is a parameter of the model (record \<open>env\<close>); what the handler does to
  them is recorded in an explicit state (record \<open>world\<close>); every \<^verbatim>\<open>throw\<close> is a
  value \<open>Inl e\<close> of a sum type.

  JavaScript strings are sequences of UTF-16 code units. A text of the model is an
  Isabelle \<open>string\<close> whose characters stand for the code units below 256; the strings
  that \<^verbatim>\<open>JSON.parse\<close> decodes may hold any code unit (through \<^verbatim>\<open>\uXXXX\<close>) and
  are lists of natural numbers.
\<close>

subsection \<open>The string methods the route calls\<close>

text \<open>\<^verbatim>\<open>String.prototype.trim\<close> strips white space and line terminators at both ends;
  below 256 these are the code units 9 to 13, 32 and 160.\<close>

definition is_js_space :: "char \<Rightarrow> bool" where
  "is_js_space c = (of_char c \<in> {9, 10, 11, 12, 13, 32, 160 :: nat})"

definition trim :: "string \<Rightarrow> string" where
  "trim s = rev (dropWhile is_js_space (rev (dropWhile is_js_space s)))"

definition startsWith :: "string \<Rightarrow> string \<Rightarrow> bool" where
  "startsWith s p = prefix p s"

definition endsWith :: "string \<Rightarrow> string \<Rightarrow> bool" where
  "endsWith s p = suffix p s"

text \<open>\<^verbatim>\<open>toLowerCase\<close> on code units below 256: A to Z, and the Latin-1 capitals
  192 to 222 without the multiplication sign 215, move up by 32.\<close>

definition lower_char :: "char \<Rightarrow> char" where
  "lower_char c =
     (let n = (of_char c :: nat)
      in if (65 \<le> n \<and> n \<le> 90) \<or> (192 \<le> n \<and> n \<le> 222 \<and> n \<noteq> 215)
         then char_of (n + 32) else c)"

definition toLowerCase :: "string \<Rightarrow> string" where
  "toLowerCase s = map lower_char s"

text \<open>\<^verbatim>\<open>s.replace(pat, rep)\<close> with a string pattern replaces the first occurrence
  only. (The route's replacement is the empty string, so the \<^verbatim>\<open>$\<close> patterns of a
  replacement string play no role.)\<close>

fun replace :: "string \<Rightarrow> string \<Rightarrow> string \<Rightarrow> string" where
  "replace [] pat rep = (if pat = [] then rep else [])"
| "replace (c # cs) pat rep =
     (if prefix pat (c # cs) then rep @ drop (length pat) (c # cs)
      else c # replace cs pat rep)"

text \<open>\<^verbatim>\<open>s.includes(pat)\<close>: some position of \<open>s\<close> starts with \<open>pat\<close>.\<close>

fun has_substring :: "string \<Rightarrow> string \<Rightarrow> bool" where
  "has_substring [] pat = (pat = [])"
| "has_substring (c # cs) pat = (prefix pat (c # cs) \<or> has_substring cs pat)"

text \<open>Decimal printing of a number, as \<^verbatim>\<open>Date.now().toString()\<close> and the
  template literal of \<^verbatim>\<open>res.status\<close> do.\<close>

fun string_of_nat :: "nat \<Rightarrow> string" where
  "string_of_nat n =
     (if n < 10 then [''0123456789'' ! n]
      else string_of_nat (n div 10) @ [''0123456789'' ! (n mod 10)])"

declare string_of_nat.simps [simp del]

subsection \<open>Exceptions\<close>

text \<open>What a \<^verbatim>\<open>throw\<close> carries: an \<^verbatim>\<open>Error\<close> with its message, the
  \<^verbatim>\<open>TypeError\<close> of a property read on \<^verbatim>\<open>null\<close> or \<^verbatim>\<open>undefined\<close>, the
  \<^verbatim>\<open>SyntaxError\<close> of \<^verbatim>\<open>JSON.parse\<close>, or the failure of a collaborator.\<close>

datatype exn = Error string | TypeError | SyntaxError | ServiceFailure string

subsection \<open>JSON values and \<^verbatim>\<open>JSON.parse\<close>\<close>

text \<open>
  \<^verbatim>\<open>JSON.parse\<close> is a built-in; the model follows the JSON grammar (ECMA-404) as a
  lexer and a parser over its tokens. A number keeps its literal (its double value is
  a function of the literal), an object keeps its members in the order of the text
  (a property read takes the last member of a name, as the built-in does), so two
  texts with equal values here have equal values in JavaScript.
\<close>

datatype json =
    JNull
  | JBool bool
  | JNumber string
  | JString "nat list"
  | JArray "json list"
  | JObject "(nat list \<times> json) list"

datatype token =
    LBrace | RBrace | LBrack | RBrack | Colon | Comma
  | TString "nat list" | TNumber string | TTrue | TFalse | TNull

definition is_json_ws :: "char \<Rightarrow> bool" where
  "is_json_ws c = (of_char c \<in> {9, 10, 13, 32 :: nat})"

definition is_digit :: "char \<Rightarrow> bool" where
  "is_digit c = (48 \<le> (of_char c :: nat) \<and> (of_char c :: nat) \<le> 57)"

definition hex_val :: "char \<Rightarrow> nat option" where
  "hex_val c =
     (let n = (of_char c :: nat)
      in if 48 \<le> n \<and> n \<le> 57 then Some (n - 48)
         else if 65 \<le> n \<and> n \<le> 70 then Some (n - 55)
         else if 97 \<le> n \<and> n \<le> 102 then Some (n - 87)
         else None)"

text \<open>The character after a backslash: \<^verbatim>\<open>" \ / b f n r t\<close>.\<close>

definition unescape :: "char \<Rightarrow> nat option" where
  "unescape c =
     (if c = CHR 0x22 then Some 34
      else if c = CHR 0x5C then Some 92
      else if c = CHR ''/'' then Some 47
      else if c = CHR ''b'' then Some 8
      else if c = CHR ''f'' then Some 12
      else if c = CHR ''n'' then Some 10
      else if c = CHR ''r'' then Some 13
      else if c = CHR ''t'' then Some 9
      else None)"

definition cons_unit :: "nat \<Rightarrow> (nat list \<times> string) option \<Rightarrow> (nat list \<times> string) option" where
  "cons_unit u r = (case r of None \<Rightarrow> None | Some (s, rest) \<Rightarrow> Some (u # s, rest))"

text \<open>The body of a string literal, after its opening quote: up to the closing
  quote, with escapes decoded; control characters are refused.\<close>

fun lex_string :: "string \<Rightarrow> (nat list \<times> string) option" where
  "lex_string [] = None"
| "lex_string (c # cs) =
     (if c = CHR 0x22 then Some ([], cs)
      else if c = CHR 0x5C then
        (case cs of
           [] \<Rightarrow> None
         | e # cs' \<Rightarrow>
             if e = CHR ''u'' then
               (case cs' of
                  h1 # h2 # h3 # h4 # cs'' \<Rightarrow>
                    (case (hex_val h1, hex_val h2, hex_val h3, hex_val h4) of
                       (Some a, Some b, Some c, Some d) \<Rightarrow>
                         cons_unit (((a * 16 + b) * 16 + c) * 16 + d) (lex_string cs'')
                     | _ \<Rightarrow> None)
                | _ \<Rightarrow> None)
             else
               (case unescape e of
                  None \<Rightarrow> None
                | Some u \<Rightarrow> cons_unit u (lex_string cs')))
      else if (of_char c :: nat) < 32 then None
      else cons_unit (of_char c) (lex_string cs))"

text \<open>A number literal: an optional minus, an integer part without leading zeros,
  an optional fraction and an optional exponent.\<close>

definition lex_int :: "string \<Rightarrow> (string \<times> string) option" where
  "lex_int s =
     (case s of
        [] \<Rightarrow> None
      | c # cs \<Rightarrow>
          if c = CHR ''0'' then Some ([c], cs)
          else if is_digit c then Some (c # takeWhile is_digit cs, dropWhile is_digit cs)
          else None)"

definition lex_frac :: "string \<Rightarrow> (string \<times> string) option" where
  "lex_frac s =
     (case s of
        [] \<Rightarrow> Some ([], [])
      | c # cs \<Rightarrow>
          if c = CHR ''.'' then
            (if takeWhile is_digit cs = [] then None
             else Some (c # takeWhile is_digit cs, dropWhile is_digit cs))
          else Some ([], s))"

definition lex_sign :: "string \<Rightarrow> string \<times> string" where
  "lex_sign s =
     (case s of
        [] \<Rightarrow> ([], [])
      | c # cs \<Rightarrow> if c = CHR ''+'' \<or> c = CHR ''-'' then ([c], cs) else ([], s))"

definition lex_exp :: "string \<Rightarrow> (string \<times> string) option" where
  "lex_exp s =
     (case s of
        [] \<Rightarrow> Some ([], [])
      | c # cs \<Rightarrow>
          if c = CHR ''e'' \<or> c = CHR ''E'' then
            (case lex_sign cs of
               (sg, ds) \<Rightarrow>
                 if takeWhile is_digit ds = [] then None
                 else Some (c # sg @ takeWhile is_digit ds, dropWhile is_digit ds))
          else Some ([], s))"

definition lex_minus :: "string \<Rightarrow> string \<times> string" where
  "lex_minus s =
     (case s of
        [] \<Rightarrow> ([], [])
      | c # cs \<Rightarrow> if c = CHR ''-'' then ([c], cs) else ([], s))"

definition lex_number :: "string \<Rightarrow> (string \<times> string) option" where
  "lex_number s =
     (case lex_minus s of
        (m, s1) \<Rightarrow>
          (case lex_int s1 of
             None \<Rightarrow> None
           | Some (i, s2) \<Rightarrow>
               (case lex_frac s2 of
                  None \<Rightarrow> None
                | Some (f, s3) \<Rightarrow>
                    (case lex_exp s3 of
                       None \<Rightarrow> None
                     | Some (e, s4) \<Rightarrow> Some (m @ i @ f @ e, s4)))))"

text \<open>One token at the head of a text that does not start with white space.\<close>

definition lex1 :: "string \<Rightarrow> (token \<times> string) option" where
  "lex1 s =
     (case s of
        [] \<Rightarrow> None
      | c # cs \<Rightarrow>
          if c = CHR ''{'' then Some (LBrace, cs)
          else if c = CHR ''}'' then Some (RBrace, cs)
          else if c = CHR ''['' then Some (LBrack, cs)
          else if c = CHR '']'' then Some (RBrack, cs)
          else if c = CHR '':'' then Some (Colon, cs)
          else if c = CHR '','' then Some (Comma, cs)
          else if c = CHR 0x22 then
            (case lex_string cs of None \<Rightarrow> None | Some (u, r) \<Rightarrow> Some (TString u, r))
          else if startsWith s ''true'' then Some (TTrue, drop 4 s)
          else if startsWith s ''false'' then Some (TFalse, drop 5 s)
          else if startsWith s ''null'' then Some (TNull, drop 4 s)
          else if c = CHR ''-'' \<or> is_digit c then
            (case lex_number s of None \<Rightarrow> None | Some (n, r) \<Rightarrow> Some (TNumber n, r))
          else None)"

lemma cons_unit_Some:
  "cons_unit u r = Some (s, rest) \<Longrightarrow> \<exists>s'. r = Some (s', rest) \<and> s = u # s'"
  by (cases r) (auto simp: cons_unit_def)

lemma lex_string_shorter: "lex_string s = Some (u, r) \<Longrightarrow> length r < length s"
proof (induction s arbitrary: u r rule: length_induct)
  case (1 s)
  have IH: "length xa < length ys"
    if "lex_string ys = Some (x, xa)" "length ys < length s" for ys x xa
    using "1.IH" that by blast
  show ?case
  proof (cases s)
    case Nil
    with "1.prems" show ?thesis by simp
  next
    case (Cons c cs)
    with "1.prems" show ?thesis
      by (auto split: if_splits list.splits option.splits dest!: cons_unit_Some)
         (use IH Cons in fastforce)+
  qed
qed

lemma lex_number_shorter: "lex_number s = Some (n, r) \<Longrightarrow> length r < length s"
proof -
  have dw: "length (dropWhile is_digit xs) \<le> length xs" for xs
    by (rule length_dropWhile_le)
  assume "lex_number s = Some (n, r)"
  then obtain m s1 i s2 f s3 e where
    m: "lex_minus s = (m, s1)" and i: "lex_int s1 = Some (i, s2)" and
    f: "lex_frac s2 = Some (f, s3)" and e: "lex_exp s3 = Some (e, r)"
    by (auto simp: lex_number_def split: prod.splits option.splits)
  from m have 1: "length s1 \<le> length s"
    by (auto simp: lex_minus_def split: list.splits if_splits)
  from i have 2: "length s2 < length s1"
    using dw by (auto simp: lex_int_def less_Suc_eq_le split: list.splits if_splits)
  from f have 3: "length s3 \<le> length s2"
    using dw by (auto simp: lex_frac_def le_Suc_eq split: list.splits if_splits)
  have sg: "length (snd (lex_sign xs)) \<le> length xs" for xs
    by (auto simp: lex_sign_def split: list.splits)
  from e have 4: "length r \<le> length s3"
  proof (cases s3)
    case Nil
    with e show ?thesis by (simp add: lex_exp_def)
  next
    case (Cons c cs)
    show ?thesis
    proof (cases "c = CHR ''e'' \<or> c = CHR ''E''")
      case False
      with e Cons show ?thesis by (auto simp: lex_exp_def)
    next
      case True
      with e Cons have "r = dropWhile is_digit (snd (lex_sign cs))"
        by (auto simp: lex_exp_def split: prod.splits if_splits)
      then have "length r \<le> length (snd (lex_sign cs))" using dw by simp
      with sg [of cs] Cons show ?thesis by simp
    qed
  qed
  from 1 2 3 4 show ?thesis by linarith
qed

lemma lex1_cases:
  "lex1 (c # cs) = Some (t, r) \<Longrightarrow>
     r = cs \<or> r = drop 3 cs \<or> r = drop 4 cs
     \<or> (\<exists>u. lex_string cs = Some (u, r)) \<or> (\<exists>n. lex_number (c # cs) = Some (n, r))"
  by (simp add: lex1_def split: if_splits option.splits prod.splits)

lemma lex1_shorter: "lex1 s = Some (t, r) \<Longrightarrow> length r < length s"
proof (cases s)
  case Nil
  then show "lex1 s = Some (t, r) \<Longrightarrow> ?thesis" by (simp add: lex1_def)
next
  case (Cons c cs)
  assume a: "lex1 s = Some (t, r)"
  from lex1_cases [OF a [unfolded Cons]] Cons show ?thesis
    by (auto dest: lex_string_shorter lex_number_shorter intro: le_imp_less_Suc)
qed

text \<open>The tokens of a text: white space (space, tab, line feed, carriage return)
  separates tokens and is skipped.\<close>

function lex :: "string \<Rightarrow> token list option" where
  "lex s =
     (case dropWhile is_json_ws s of
        [] \<Rightarrow> Some []
      | c # cs \<Rightarrow>
          (case lex1 (c # cs) of
             None \<Rightarrow> None
           | Some (t, r) \<Rightarrow>
               (case lex r of None \<Rightarrow> None | Some ts \<Rightarrow> Some (t # ts))))"
  by pat_completeness auto
termination
proof (relation "measure length")
  show "wf (measure length)" by simp
next
  fix s :: string and c cs x2 t r
  assume d: "dropWhile is_json_ws s = c # cs" and l: "lex1 (c # cs) = Some x2"
    and x: "(t, r) = x2"
  from l x have "length r < length (c # cs)" by (auto dest: lex1_shorter)
  moreover have "length (c # cs) \<le> length s"
    using length_dropWhile_le [of is_json_ws s] d by simp
  ultimately show "(r, s) \<in> measure length" by simp
qed

declare lex.simps [simp del]

text \<open>
  The parser runs over the tokens with a stack of the arrays and objects that are
  open: an \<open>ArrayFrame\<close> holds the elements read so far, an \<open>ObjectFrame\<close> the
  members read so far and the name whose value is being read. \<open>parse_value\<close>
  expects a value, \<open>parse_member\<close> a name, a colon and a value, and \<open>after_value\<close>
  takes a finished value to the frame that waits for it; at the bottom of the stack
  the text must end.
\<close>

datatype frame =
    ArrayFrame "json list"
  | ObjectFrame "(nat list \<times> json) list" "nat list"

fun parse_value :: "frame list \<Rightarrow> token list \<Rightarrow> json option"
  and parse_member :: "frame list \<Rightarrow> (nat list \<times> json) list \<Rightarrow> token list \<Rightarrow> json option"
  and after_value :: "frame list \<Rightarrow> json \<Rightarrow> token list \<Rightarrow> json option"
where
  "parse_value stk [] = None"
| "parse_value stk (t # ts) =
     (case t of
        TNull \<Rightarrow> after_value stk JNull ts
      | TTrue \<Rightarrow> after_value stk (JBool True) ts
      | TFalse \<Rightarrow> after_value stk (JBool False) ts
      | TNumber n \<Rightarrow> after_value stk (JNumber n) ts
      | TString u \<Rightarrow> after_value stk (JString u) ts
      | LBrack \<Rightarrow>
          (case ts of
             RBrack # ts' \<Rightarrow> after_value stk (JArray []) ts'
           | _ \<Rightarrow> parse_value (ArrayFrame [] # stk) ts)
      | LBrace \<Rightarrow>
          (case ts of
             RBrace # ts' \<Rightarrow> after_value stk (JObject []) ts'
           | _ \<Rightarrow> parse_member stk [] ts)
      | _ \<Rightarrow> None)"
| "parse_member stk ms (TString k # Colon # ts) = parse_value (ObjectFrame ms k # stk) ts"
| "parse_member stk ms _ = None"
| "after_value [] v ts = (if ts = [] then Some v else None)"
| "after_value (ArrayFrame xs # stk) v (Comma # ts) =
     parse_value (ArrayFrame (xs @ [v]) # stk) ts"
| "after_value (ArrayFrame xs # stk) v (RBrack # ts) =
     after_value stk (JArray (xs @ [v])) ts"
| "after_value (ObjectFrame ms k # stk) v (Comma # ts) =
     parse_member stk (ms @ [(k, v)]) ts"
| "after_value (ObjectFrame ms k # stk) v (RBrace # ts) =
     after_value stk (JObject (ms @ [(k, v)])) ts"
| "after_value stk v ts = None"

definition JSON_parse :: "string \<Rightarrow> json option" where
  "JSON_parse text = (case lex text of None \<Rightarrow> None | Some ts \<Rightarrow> parse_value [] ts)"

text \<open>A property read \<^verbatim>\<open>v.name\<close> on a parsed value: \<open>None\<close> is \<^verbatim>\<open>undefined\<close>. Only
  an object has own properties of the names the route reads; of two members with one
  name the later one counts.\<close>

definition js :: "string \<Rightarrow> nat list" where
  "js s = map of_char s"

definition get_prop :: "json \<Rightarrow> string \<Rightarrow> json option" where
  "get_prop v name = (case v of JObject ms \<Rightarrow> map_of (rev ms) (js name) | _ \<Rightarrow> None)"

subsection \<open>\<^verbatim>\<open>extractJson\<close>\<close>

text \<open>
  \<^verbatim>\<open>text.match(/\{[\s\S]*\}/)\<close>: the match starts at the first \<^verbatim>\<open>{\<close> that has a
  \<^verbatim>\<open>}\<close> after it; the star is greedy, so it ends at the last \<^verbatim>\<open>}\<close> of the text.
  \<open>upto_last_brace cs\<close> is the longest prefix of \<open>cs\<close> that ends in \<^verbatim>\<open>}\<close>.
\<close>

fun upto_last_brace :: "string \<Rightarrow> string option" where
  "upto_last_brace [] = None"
| "upto_last_brace (c # cs) =
     (case upto_last_brace cs of
        Some m \<Rightarrow> Some (c # m)
      | None \<Rightarrow> if c = CHR ''}'' then Some [c] else None)"

fun match_braces :: "string \<Rightarrow> string option" where
  "match_braces [] = None"
| "match_braces (c # cs) =
     (if c = CHR ''{'' then
        (case upto_last_brace cs of
           Some m \<Rightarrow> Some (c # m)
         | None \<Rightarrow> match_braces cs)
      else match_braces cs)"

text \<open>
  \<^verbatim>\<open>
  function extractJson(text: string) {
    try { return JSON.parse(text); }
    catch {
      const match = text.match(/\{[\s\S]*\}/);
      if (!match) throw new Error("No JSON found in model output");
      return JSON.parse(match[0]);
    }
  }\<close>
  The second \<^verbatim>\<open>JSON.parse\<close> is outside the \<^verbatim>\<open>try\<close>: its \<^verbatim>\<open>SyntaxError\<close> leaves
  the function.
\<close>

definition extractJson :: "string \<Rightarrow> exn + json" where
  "extractJson text =
     (case JSON_parse text of
        Some v \<Rightarrow> Inr v
      | None \<Rightarrow>
          (case match_braces text of
             None \<Rightarrow> Inl (Error ''No JSON found in model output'')
           | Some m \<Rightarrow>
               (case JSON_parse m of
                  Some v \<Rightarrow> Inr v
                | None \<Rightarrow> Inl SyntaxError)))"

text \<open>
  The parsing step of the handler, on the text of the first model response:
  \<^verbatim>\<open>
  let textOutput = jsonResponse.text?.trim() || "";
  textOutput = textOutput.replace("```json", "").replace("```", "").trim();
  const json = extractJson(textOutput);\<close>
\<close>

definition strip_fences :: "string \<Rightarrow> string" where
  "strip_fences t = trim (replace (replace t ''```json'' []) ''```'' [])"

definition parse_model_text :: "string option \<Rightarrow> exn + json" where
  "parse_model_text text =
     (let textOutput = (case text of None \<Rightarrow> [] | Some t \<Rightarrow> trim t)
      in extractJson (strip_fences textOutput))"

subsection \<open>Image payloads\<close>

text \<open>\<^verbatim>\<open>Buffer.from(arrayBuffer).toString("base64")\<close>: three bytes give four characters
  of the alphabet, a last group of one or two bytes is padded with \<^verbatim>\<open>=\<close>.\<close>

definition b64 :: "nat \<Rightarrow> char" where
  "b64 n = ''ABCDEFGHIJKLMNOPQRSTUVWXYZabcdefghijklmnopqrstuvwxyz0123456789+/'' ! n"

fun base64 :: "8 word list \<Rightarrow> string" where
  "base64 [] = []"
| "base64 [a] = [b64 (unat a div 4), b64 (unat a mod 4 * 16), CHR ''='', CHR ''='']"
| "base64 [a, b] =
     [b64 (unat a div 4), b64 (unat a mod 4 * 16 + unat b div 16),
      b64 (unat b mod 16 * 4), CHR ''='']"
| "base64 (a # b # c # bs) =
     [b64 (unat a div 4), b64 (unat a mod 4 * 16 + unat b div 16),
      b64 (unat b mod 16 * 4 + unat c div 64), b64 (unat c mod 64)] @ base64 bs"

text \<open>A part of a generation request or response: \<^verbatim>\<open>{ text: v }\<close>, where \<open>None\<close> is
  \<^verbatim>\<open>undefined\<close>, or \<^verbatim>\<open>{ inlineData: { data, mimeType } }\<close>.\<close>

datatype part = Text "json option" | InlineData string string

subsection \<open>The collaborators and the state\<close>

record fetch_response =
  res_ok :: bool
  res_status :: nat
  res_content_type :: "string option"
  res_body :: "8 word list"

record upload_request =
  up_file :: string
  up_fileName :: string
  up_isPublished :: bool

text \<open>A generation request: the model, the parts of its one user message, and
  whether the JSON response schema of the first call is set. A response: its
  \<^verbatim>\<open>text\<close> and its \<^verbatim>\<open>candidates\<close>, each with its \<^verbatim>\<open>content?.parts\<close>; \<open>None\<close> is
  \<^verbatim>\<open>undefined\<close>.\<close>

record gen_request =
  gen_model :: string
  gen_parts :: "part list"
  gen_json_schema :: bool

record gen_response =
  gen_text :: "string option"
  gen_candidates :: "part list option list option"

text \<open>The multipart form: \<^verbatim>\<open>formData.get\<close> gives \<^verbatim>\<open>null\<close> (\<open>None\<close>) for an absent
  field; the text fields are strings.\<close>

record form_file_value =
  file_bytes :: "8 word list"
  file_type :: string

record form =
  form_file :: "form_file_value option"
  form_description :: "string option"
  form_size :: "string option"
  form_userEmail :: "string option"
  form_avatar :: "string option"
  form_imageUrl :: "string option"

text \<open>A document of \<^verbatim>\<open>user-ads\<close>: the fields of \<^verbatim>\<open>setDoc\<close>, and the fields that
  \<^verbatim>\<open>updateDoc\<close> adds (\<open>None\<close> while absent).\<close>

record job =
  job_userEmail :: "string option"
  job_status :: string
  job_description :: "string option"
  job_size :: "string option"
  job_docId :: string
  job_finalProductImageUrl :: "string option"
  job_productImageUrl :: "string option"
  job_imageToVideoPrompt :: "json option"

record update_fields =
  upd_finalProductImageUrl :: string
  upd_productImageUrl :: string
  upd_status :: string
  upd_imageToVideoPrompt :: "json option"

datatype store_op = SetDoc string job | UpdateDoc string update_fields | DeleteDoc string

text \<open>
  The state: the \<^verbatim>\<open>users\<close> collection (the \<^verbatim>\<open>email\<close> field of each document), the
  \<^verbatim>\<open>user-ads\<close> collection, and the calls made so far: the write calls sent to the
  store, those of them that the store has applied, the uploads sent to the image
  host, the generation requests and the URLs fetched.
\<close>

record world =
  users :: "string option list"
  user_ads :: "string \<rightharpoonup> job"
  store_calls :: "store_op list"
  writes :: "store_op list"
  uploads :: "upload_request list"
  generations :: "gen_request list"
  fetches :: "string list"

text \<open>
  The parameters of a run: the two instruction templates (the repository holds two
  copies of the route that differ only in these texts), the three readings of
  \<^verbatim>\<open>Date.now()\<close>, and the collaborators' answers. An answer may depend on the request
  and on the number of earlier calls; \<open>Inl e\<close> is a call that throws. The store
  answers a write call with \<open>None\<close> when it takes the call and with \<open>Some e\<close> when the
  promise of the call rejects with \<open>e\<close> (the store cannot be reached, its rules deny
  the write, it refuses a value).
\<close>

record env =
  PROMPT :: string
  AVATAR_PROMPT :: string
  now_docId :: nat
  now_fileName :: nat
  now_generated :: nat
  fetch_answer :: "nat \<Rightarrow> string \<Rightarrow> exn + fetch_response"
  upload_answer :: "nat \<Rightarrow> upload_request \<Rightarrow> exn + string"
  generate_answer :: "nat \<Rightarrow> gen_request \<Rightarrow> exn + gen_response"
  store_answer :: "nat \<Rightarrow> store_op \<Rightarrow> exn option"

type_synonym 'a action = "world \<Rightarrow> (exn + 'a) \<times> world"

text \<open>\<open>await m f\<close> runs \<open>m\<close> and continues with \<open>f\<close> on its value; an exception of
  \<open>m\<close> ends the sequence. \<open>result r\<close> returns or throws without touching the state.\<close>

definition await :: "'a action \<Rightarrow> ('a \<Rightarrow> 'b action) \<Rightarrow> 'b action" where
  "await m f w = (case m w of (Inl e, w') \<Rightarrow> (Inl e, w') | (Inr a, w') \<Rightarrow> f a w')"

definition result :: "exn + 'a \<Rightarrow> 'a action" where
  "result r w = (r, w)"

definition fetch :: "env \<Rightarrow> string \<Rightarrow> fetch_response action" where
  "fetch env url w =
     (fetch_answer env (length (fetches w)) url, w\<lparr>fetches := fetches w @ [url]\<rparr>)"

definition imagekit_upload :: "env \<Rightarrow> upload_request \<Rightarrow> string action" where
  "imagekit_upload env r w =
     (upload_answer env (length (uploads w)) r, w\<lparr>uploads := uploads w @ [r]\<rparr>)"

definition generateContent :: "env \<Rightarrow> gen_request \<Rightarrow> gen_response action" where
  "generateContent env r w =
     (generate_answer env (length (generations w)) r,
      w\<lparr>generations := generations w @ [r]\<rparr>)"

text \<open>
  The three write calls of the document store. Each is a promise that the handler
  awaits: it rejects when the store says so, and then nothing is written. A call that
  the store takes is applied: \<^verbatim>\<open>setDoc\<close> creates or overwrites the document,
  \<^verbatim>\<open>updateDoc\<close> merges fields into an existing document and rejects when the document
  is missing, \<^verbatim>\<open>deleteDoc\<close> removes it. \<^verbatim>\<open>updateDoc\<close> throws on an \<^verbatim>\<open>undefined\<close>
  field value before it sends anything.
\<close>

definition setDoc :: "env \<Rightarrow> string \<Rightarrow> job \<Rightarrow> unit action" where
  "setDoc env docId j w =
     (let w1 = w\<lparr>store_calls := store_calls w @ [SetDoc docId j]\<rparr>
      in case store_answer env (length (store_calls w)) (SetDoc docId j) of
           Some e \<Rightarrow> (Inl e, w1)
         | None \<Rightarrow>
             (Inr (),
              w1\<lparr>user_ads := (user_ads w)(docId \<mapsto> j),
                 writes := writes w @ [SetDoc docId j]\<rparr>))"

definition updateDoc :: "env \<Rightarrow> string \<Rightarrow> update_fields \<Rightarrow> unit action" where
  "updateDoc env docId u w =
     (case upd_imageToVideoPrompt u of
        None \<Rightarrow> (Inl (ServiceFailure ''Unsupported field value: undefined''), w)
      | Some v \<Rightarrow>
          (let w1 = w\<lparr>store_calls := store_calls w @ [UpdateDoc docId u]\<rparr>
           in case store_answer env (length (store_calls w)) (UpdateDoc docId u) of
                Some e \<Rightarrow> (Inl e, w1)
              | None \<Rightarrow>
                  (case user_ads w docId of
                     None \<Rightarrow> (Inl (ServiceFailure ''No document to update''), w1)
                   | Some j \<Rightarrow>
                       (Inr (),
                        w1\<lparr>user_ads := (user_ads w)(docId \<mapsto>
                              j\<lparr>job_status := upd_status u,
                                job_finalProductImageUrl := Some (upd_finalProductImageUrl u),
                                job_productImageUrl := Some (upd_productImageUrl u),
                                job_imageToVideoPrompt := Some v\<rparr>),
                           writes := writes w @ [UpdateDoc docId u]\<rparr>))))"

definition deleteDoc :: "env \<Rightarrow> string \<Rightarrow> unit action" where
  "deleteDoc env docId w =
     (let w1 = w\<lparr>store_calls := store_calls w @ [DeleteDoc docId]\<rparr>
      in case store_answer env (length (store_calls w)) (DeleteDoc docId) of
           Some e \<Rightarrow> (Inl e, w1)
         | None \<Rightarrow>
             (Inr (),
              w1\<lparr>user_ads := (user_ads w)(docId := None),
                 writes := writes w @ [DeleteDoc docId]\<rparr>))"

subsection \<open>\<^verbatim>\<open>urlToInlineData\<close>\<close>

text \<open>
  Lines 90 to 97, the MIME type of a fetched image:
  \<^verbatim>\<open>
  let mimeType = res.headers.get("content-type") || "";
  if (!mimeType.startsWith("image/")) {
    const lower = url.toLowerCase();
    if (lower.endsWith(".jpg") || lower.endsWith(".jpeg")) mimeType = "image/jpeg";
    else if (lower.endsWith(".webp")) mimeType = "image/webp";
    else if (lower.endsWith(".gif")) mimeType = "image/gif";
    else mimeType = "image/png";
  }\<close>
\<close>

definition mimeType_of :: "string option \<Rightarrow> string \<Rightarrow> string" where
  "mimeType_of content_type url =
     (let mimeType = (case content_type of None \<Rightarrow> [] | Some c \<Rightarrow> c)
      in if \<not> startsWith mimeType ''image/'' then
           (let lower = toLowerCase url
            in if endsWith lower ''.jpg'' \<or> endsWith lower ''.jpeg'' then ''image/jpeg''
               else if endsWith lower ''.webp'' then ''image/webp''
               else if endsWith lower ''.gif'' then ''image/gif''
               else ''image/png'')
         else mimeType)"

definition urlToInlineData :: "env \<Rightarrow> string \<Rightarrow> part action" where
  "urlToInlineData env url =
     await (fetch env url) (\<lambda>res.
       if \<not> res_ok res then
         result (Inl (Error (''Failed to fetch image. Status '' @ string_of_nat (res_status res))))
       else if length (res_body res) < 20 then
         result (Inl (Error ''Fetched image is empty or too small.''))
       else
         result (Inr (InlineData (base64 (res_body res))
                        (mimeType_of (res_content_type res) url))))"

subsection \<open>The handler\<close>

text \<open>\<^verbatim>\<open>NextResponse.json(v)\<close>: the body \<open>v\<close> with the default status 200.\<close>

record http_response =
  http_status :: nat
  http_body :: json

definition NextResponse_json :: "json \<Rightarrow> http_response" where
  "NextResponse_json v = \<lparr>http_status = 200, http_body = v\<rparr>"

definition error_payload :: json where
  "error_payload = JObject [(js ''error'', JString (js ''Please Try Again''))]"

text \<open>\<^verbatim>\<open>avatar?.length > 2\<close>.\<close>

definition avatar_given :: "form \<Rightarrow> bool" where
  "avatar_given req = (case form_avatar req of None \<Rightarrow> False | Some a \<Rightarrow> length a > 2)"

text \<open>\<^verbatim>\<open>!imageUrl\<close>: the field is absent or empty.\<close>

definition no_imageUrl :: "form \<Rightarrow> bool" where
  "no_imageUrl req = (case form_imageUrl req of None \<Rightarrow> True | Some u \<Rightarrow> u = [])"

text \<open>
  Lines 137 to 156: the product image URL, and the bytes of an uploaded file.
  \<^verbatim>\<open>
  let productImageUrl = imageUrl;
  let uploadedBase64: string | null = null;
  let uploadedMime: string = "image/png";
  if (!imageUrl) {
    const arrayBuffer = await file.arrayBuffer();
    uploadedBase64 = Buffer.from(arrayBuffer).toString("base64");
    uploadedMime = file.type || "image/png";
    imageKitRef = await imagekit.upload({
      file: uploadedBase64, fileName: Date.now() + ".png", isPublished: true });
    productImageUrl = imageKitRef.url;
  }\<close>
  Without a file, \<^verbatim>\<open>file.arrayBuffer()\<close> is a property read on \<^verbatim>\<open>null\<close>.
\<close>

definition product_upload_request :: "env \<Rightarrow> form_file_value \<Rightarrow> upload_request" where
  "product_upload_request env f =
     \<lparr>up_file = base64 (file_bytes f),
      up_fileName = string_of_nat (now_fileName env) @ ''.png'',
      up_isPublished = True\<rparr>"

definition product_image :: "env \<Rightarrow> form \<Rightarrow> (string \<times> string option \<times> string) action" where
  "product_image env req =
     (if no_imageUrl req then
        (case form_file req of
           None \<Rightarrow> result (Inl TypeError)
         | Some f \<Rightarrow>
             await (imagekit_upload env (product_upload_request env f)) (\<lambda>url.
               result (Inr (url, Some (base64 (file_bytes f)),
                            if file_type f = [] then ''image/png'' else file_type f))))
      else
        result (Inr (case form_imageUrl req of None \<Rightarrow> [] | Some u \<Rightarrow> u,
                     None, ''image/png'')))"

text \<open>
  Lines 164 to 166:
  \<^verbatim>\<open>
  const productPart = uploadedBase64
    ? { inlineData: { data: uploadedBase64, mimeType: uploadedMime } }
    : await urlToInlineData(productImageUrl!);\<close>
  The empty string is falsy: an empty file goes the way of the URL.
\<close>

definition product_part :: "env \<Rightarrow> string \<Rightarrow> string option \<Rightarrow> string \<Rightarrow> part action" where
  "product_part env productImageUrl uploadedBase64 uploadedMime =
     (case uploadedBase64 of
        None \<Rightarrow> urlToInlineData env productImageUrl
      | Some b \<Rightarrow>
          if b = [] then urlToInlineData env productImageUrl
          else result (Inr (InlineData b uploadedMime)))"

definition json_request :: "string \<Rightarrow> part \<Rightarrow> gen_request" where
  "json_request jsonPrompt productPart =
     \<lparr>gen_model = ''gemini-2.0-flash'',
      gen_parts = [Text (Some (JString (js jsonPrompt))), productPart],
      gen_json_schema = True\<rparr>"

definition image_request :: "part list \<Rightarrow> gen_request" where
  "image_request partsForImage =
     \<lparr>gen_model = ''gemini-2.5-flash-image'',
      gen_parts = partsForImage,
      gen_json_schema = False\<rparr>"

text \<open>
  Lines 215 to 223: the first part of the first candidate that carries image data.
  \<^verbatim>\<open>
  const candidates = imageResponse.candidates || [];
  const contentParts = candidates[0]?.content?.parts || [];
  const inlineImagePart = contentParts.find((p: any) => p.inlineData?.data);
  if (!inlineImagePart) throw new Error("No image returned from Gemini");
  const generatedImage = inlineImagePart.inlineData.data;\<close>
\<close>

definition has_image_data :: "part \<Rightarrow> bool" where
  "has_image_data p = (case p of InlineData d m \<Rightarrow> d \<noteq> [] | Text v \<Rightarrow> False)"

definition generated_image :: "gen_response \<Rightarrow> exn + string" where
  "generated_image imageResponse =
     (let candidates = (case gen_candidates imageResponse of None \<Rightarrow> [] | Some cs \<Rightarrow> cs);
          contentParts = (case candidates of [] \<Rightarrow> [] | None # _ \<Rightarrow> [] | Some ps # _ \<Rightarrow> ps)
      in case find has_image_data contentParts of
           Some (InlineData d m) \<Rightarrow> Inr d
         | _ \<Rightarrow> Inl (Error ''No image returned from Gemini''))"

definition generated_upload_request :: "env \<Rightarrow> string \<Rightarrow> upload_request" where
  "generated_upload_request env generatedImage =
     \<lparr>up_file = ''data:image/png;base64,'' @ generatedImage,
      up_fileName = ''generate-'' @ string_of_nat (now_generated env) @ ''.png'',
      up_isPublished = True\<rparr>"

text \<open>\<^verbatim>\<open>json.imageToVideo\<close>, without the question mark: a \<^verbatim>\<open>TypeError\<close> on
  \<^verbatim>\<open>null\<close>.\<close>

definition imageToVideo_of :: "json \<Rightarrow> exn + json option" where
  "imageToVideo_of v = (if v = JNull then Inl TypeError else Inr (get_prop v ''imageToVideo''))"

text \<open>The body of the \<^verbatim>\<open>try\<close> block, lines 137 to 238.\<close>

definition try_block :: "env \<Rightarrow> form \<Rightarrow> string \<Rightarrow> http_response action" where
  "try_block env req docId =
     await (product_image env req) (\<lambda>(productImageUrl, uploadedBase64, uploadedMime).
     let jsonPrompt = (if avatar_given req then AVATAR_PROMPT env else PROMPT env) in
     await (product_part env productImageUrl uploadedBase64 uploadedMime) (\<lambda>productPart.
     await (generateContent env (json_request jsonPrompt productPart)) (\<lambda>jsonResponse.
     await (result (parse_model_text (gen_text jsonResponse))) (\<lambda>json.
     await (if avatar_given req
            then await (urlToInlineData env (case form_avatar req of None \<Rightarrow> [] | Some a \<Rightarrow> a))
                   (\<lambda>avatarPart. result (Inr [avatarPart]))
            else result (Inr [])) (\<lambda>avatarParts.
     let partsForImage = [Text (get_prop json ''textToImage''), productPart] @ avatarParts in
     await (generateContent env (image_request partsForImage)) (\<lambda>imageResponse.
     await (result (generated_image imageResponse)) (\<lambda>generatedImage.
     await (imagekit_upload env (generated_upload_request env generatedImage)) (\<lambda>url.
     await (result (imageToVideo_of json)) (\<lambda>imageToVideo.
     await (updateDoc env docId
              \<lparr>upd_finalProductImageUrl = url,
               upd_productImageUrl = productImageUrl,
               upd_status = ''completed'',
               upd_imageToVideoPrompt = imageToVideo\<rparr>) (\<lambda>_.
     result (Inr (NextResponse_json (JString (js url))))))))))))))"

text \<open>
  The handler. The user lookup and \<^verbatim>\<open>setDoc\<close> stand before the \<^verbatim>\<open>try\<close>:
  \<^verbatim>\<open>querySnapshot.docs[0]\<close> is \<^verbatim>\<open>undefined\<close> when no user has the e-mail, and
  \<^verbatim>\<open>userDoc.data()\<close> then throws out of the handler, as does a \<^verbatim>\<open>setDoc\<close> that
  rejects. The \<^verbatim>\<open>catch\<close> awaits \<^verbatim>\<open>deleteDoc\<close> and then answers with the error
  payload; a \<^verbatim>\<open>deleteDoc\<close> that rejects throws out of the handler, too.
  \<^verbatim>\<open>
  } catch (e) {
    await deleteDoc(doc(db, "user-ads", docId));
    console.log(e);
    return NextResponse.json({ error: "Please Try Again" });
  }\<close>
\<close>

definition pending_job :: "form \<Rightarrow> string \<Rightarrow> job" where
  "pending_job req docId =
     \<lparr>job_userEmail = form_userEmail req,
      job_status = ''pending'',
      job_description = form_description req,
      job_size = form_size req,
      job_docId = docId,
      job_finalProductImageUrl = None,
      job_productImageUrl = None,
      job_imageToVideoPrompt = None\<rparr>"

definition POST :: "env \<Rightarrow> form \<Rightarrow> http_response action" where
  "POST env req w =
     (case filter (\<lambda>email. email = form_userEmail req) (users w) of
        [] \<Rightarrow> (Inl TypeError, w)
      | userDoc # _ \<Rightarrow>
          (let docId = string_of_nat (now_docId env)
           in await (setDoc env docId (pending_job req docId)) (\<lambda>_ w1.
                case try_block env req docId w1 of
                  (Inr response, w2) \<Rightarrow> (Inr response, w2)
                | (Inl e, w2) \<Rightarrow>
                    await (deleteDoc env docId) (\<lambda>_.
                      result (Inr (NextResponse_json error_payload))) w2) w))"

subsection \<open>Example runs\<close>

text \<open>A fetched response of \<open>n\<close> zero bytes; collaborators that answer every call: the
  model with a given text and one generated image, the image host with a URL made of
  the file name, the store taking every write; a store that rejects some of the
  calls; a store with one user; a form with a three-byte file.\<close>

definition image_response :: "string option \<Rightarrow> nat \<Rightarrow> fetch_response" where
  "image_response content_type n =
     \<lparr>res_ok = True, res_status = 200, res_content_type = content_type,
      res_body = replicate n 0\<rparr>"

definition example_env :: "string \<Rightarrow> fetch_response \<Rightarrow> env" where
  "example_env text res =
     \<lparr>PROMPT = ''product'', AVATAR_PROMPT = ''avatar'',
      now_docId = 1700, now_fileName = 1701, now_generated = 1702,
      fetch_answer = (\<lambda>n url. Inr res),
      upload_answer = (\<lambda>n r. Inr (''https://ik.example/'' @ up_fileName r)),
      generate_answer = (\<lambda>n r.
        if gen_json_schema r then Inr \<lparr>gen_text = Some text, gen_candidates = None\<rparr>
        else Inr \<lparr>gen_text = None,
                  gen_candidates = Some [Some [InlineData ''QUJD'' ''image/png'']]\<rparr>),
      store_answer = (\<lambda>n op. None)\<rparr>"

definition unavailable :: exn where
  "unavailable = ServiceFailure ''The store is unavailable''"

definition rejecting_deleteDoc :: "env \<Rightarrow> env" where
  "rejecting_deleteDoc env =
     env\<lparr>store_answer := (\<lambda>n op. case op of DeleteDoc d \<Rightarrow> Some unavailable | _ \<Rightarrow> None)\<rparr>"


definition example_world :: world where
  "example_world =
     \<lparr>users = [Some ''ann@example.org''], user_ads = Map.empty, store_calls = [],
      writes = [],
      uploads = [], generations = [], fetches = []\<rparr>"

definition example_form :: "string option \<Rightarrow> string option \<Rightarrow> string option \<Rightarrow> form" where
  "example_form email avatar imageUrl =
     \<lparr>form_file = Some \<lparr>file_bytes = [1, 2, 3], file_type = ''image/jpeg''\<rparr>,
      form_description = Some ''a mug'', form_size = Some ''1:1'',
      form_userEmail = email,
      form_avatar = avatar, form_imageUrl = imageUrl\<rparr>"

definition ann :: "string option" where
  "ann = Some ''ann@example.org''"

section \<open>Properties\<close>

subsection \<open>What a sequence of calls does to the store\<close>

lemma awaitE:
  assumes "await m f w = (r, w')"
  obtains (throws) e where "m w = (Inl e, w')" "r = Inl e"
  | (continues) a w1 where "m w = (Inr a, w1)" "f a w1 = (r, w')"
  using assms by (auto simp: await_def split: prod.splits sum.splits)

text \<open>\<open>keeps p m\<close>: the action \<open>m\<close> leaves the component \<open>p\<close> of the state as it was.\<close>

definition keeps :: "(world \<Rightarrow> 'x) \<Rightarrow> 'a action \<Rightarrow> bool" where
  "keeps p m = (\<forall>w. p (snd (m w)) = p w)"

lemma keepsD: "keeps p m \<Longrightarrow> m w = (r, w') \<Longrightarrow> p w' = p w"
  by (metis keeps_def snd_conv)

lemma keeps_result [simp]: "keeps p (result r)"
  by (simp add: keeps_def result_def)

lemma keeps_await:
  assumes "keeps p m" "\<And>a. keeps p (f a)"
  shows "keeps p (await m f)"
  unfolding keeps_def
proof
  fix w
  obtain r w1 where m: "m w = (r, w1)" by (cases "m w")
  from keepsD [OF assms(1) m] have 1: "p w1 = p w" .
  show "p (snd (await m f w)) = p w"
  proof (cases r)
    case (Inl e)
    with m 1 show ?thesis by (simp add: await_def)
  next
    case (Inr a)
    from assms(2) [of a] have "p (snd (f a w1)) = p w1" by (simp add: keeps_def)
    with m Inr 1 show ?thesis by (simp add: await_def)
  qed
qed

text \<open>The store: the two collections and the writes applied.\<close>

definition store :: "world \<Rightarrow> string option list \<times> (string \<rightharpoonup> job) \<times> store_op list" where
  "store w = (users w, user_ads w, writes w)"

lemma keeps_store_fetch [simp]: "keeps store (fetch env url)"
  by (simp add: keeps_def fetch_def store_def)

lemma keeps_store_upload [simp]: "keeps store (imagekit_upload env r)"
  by (simp add: keeps_def imagekit_upload_def store_def)

lemma keeps_store_generate [simp]: "keeps store (generateContent env r)"
  by (simp add: keeps_def generateContent_def store_def)

lemma keeps_store_urlToInlineData [simp]: "keeps store (urlToInlineData env url)"
  unfolding urlToInlineData_def by (rule keeps_await) simp_all

lemma keeps_store_product_image [simp]: "keeps store (product_image env req)"
  unfolding product_image_def
  by (auto split: option.splits intro!: keeps_await)

lemma keeps_store_product_part [simp]: "keeps store (product_part env u b m)"
  unfolding product_part_def by (auto split: option.splits)

text \<open>
  \<open>completes docId w out\<close>: the outcome \<open>out\<close> of a sequence started in \<open>w\<close> either
  throws with the store as it was, or returns the URL it has written, with the status
  \<^verbatim>\<open>completed\<close>, into the document \<open>docId\<close>, by one \<^verbatim>\<open>updateDoc\<close>.
\<close>

definition completes :: "string \<Rightarrow> world \<Rightarrow> (exn + http_response) \<times> world \<Rightarrow> bool" where
  "completes docId w out =
     (case out of
        (Inl e, w') \<Rightarrow> store w' = store w
      | (Inr response, w') \<Rightarrow>
          (\<exists>u j v. user_ads w docId = Some j \<and> upd_imageToVideoPrompt u = Some v \<and>
             upd_status u = ''completed'' \<and>
             response = NextResponse_json (JString (js (upd_finalProductImageUrl u))) \<and>
             users w' = users w \<and>
             writes w' = writes w @ [UpdateDoc docId u] \<and>
             user_ads w' = (user_ads w)(docId \<mapsto>
               j\<lparr>job_status := ''completed'',
                 job_finalProductImageUrl := Some (upd_finalProductImageUrl u),
                 job_productImageUrl := Some (upd_productImageUrl u),
                 job_imageToVideoPrompt := Some v\<rparr>)))"

lemma completes_await:
  assumes "keeps store m" "\<And>a w1. completes docId w1 (f a w1)"
  shows "completes docId w (await m f w)"
proof -
  obtain r w1 where m: "m w = (r, w1)" by (cases "m w")
  from keepsD [OF assms(1) m] have 1: "store w1 = store w" .
  show ?thesis
  proof (cases r)
    case (Inl e)
    with m 1 show ?thesis by (simp add: await_def completes_def)
  next
    case (Inr a)
    from assms(2) [of w1 a] 1 have "completes docId w (f a w1)"
      by (auto simp: completes_def store_def split: prod.splits sum.splits)
    with m Inr show ?thesis by (simp add: await_def)
  qed
qed

lemma completes_update:
  "completes docId w
     (await (updateDoc env docId \<lparr>upd_finalProductImageUrl = url, upd_productImageUrl = p,
                              upd_status = ''completed'', upd_imageToVideoPrompt = v\<rparr>)
        (\<lambda>_. result (Inr (NextResponse_json (JString (js url))))) w)"
  by (auto simp: completes_def await_def updateDoc_def result_def store_def Let_def
           split: option.splits)

lemma try_block_completes: "completes docId w (try_block env req docId w)"
  unfolding try_block_def Let_def
  apply (rule completes_await, simp)
  apply (simp only: split_paired_all prod.case)
  apply (rule completes_await, simp)
  apply (rule completes_await, simp)
  apply (rule completes_await, simp)
  apply (rule completes_await)
   apply (auto intro!: keeps_await)[1]
  apply (rule completes_await, simp)
  apply (rule completes_await, simp)
  apply (rule completes_await, simp)
  apply (rule completes_await, simp)
  apply (rule completes_update)
  done

lemma user_found:
  "email \<in> set us \<Longrightarrow> \<exists>userDoc rest. filter (\<lambda>e. e = email) us = userDoc # rest"
  by (cases "filter (\<lambda>e. e = email) us") (auto simp: filter_empty_conv)


lemma error_payload_not_string: "JString u \<noteq> error_payload"
  by (simp add: error_payload_def)

lemma POST_unknown_user_lemma:
  assumes "form_userEmail req \<notin> set (users w)"
  shows "POST env req w = (Inl TypeError, w)"
proof -
  from assms have "filter (\<lambda>email. email = form_userEmail req) (users w) = []"
    by (auto simp: filter_empty_conv)
  then show ?thesis by (simp add: POST_def)
qed

text \<open>
  Intake: \<open>created env req w\<close> says that the user is known and that the store takes
  the \<^verbatim>\<open>setDoc\<close> of line 128; \<open>intake env req w\<close> is the state after that call.
\<close>

definition created :: "env \<Rightarrow> form \<Rightarrow> world \<Rightarrow> bool" where
  "created env req w =
     (form_userEmail req \<in> set (users w) \<and>
      store_answer env (length (store_calls w))
        (SetDoc (string_of_nat (now_docId env))
           (pending_job req (string_of_nat (now_docId env)))) = None)"

definition intake :: "env \<Rightarrow> form \<Rightarrow> world \<Rightarrow> world" where
  "intake env req w =
     snd (setDoc env (string_of_nat (now_docId env))
            (pending_job req (string_of_nat (now_docId env))) w)"

lemma intake_created:
  assumes "created env req w" and "docId = string_of_nat (now_docId env)"
  shows "setDoc env docId (pending_job req docId) w = (Inr (), intake env req w)"
    and "users (intake env req w) = users w"
    and "user_ads (intake env req w) = (user_ads w)(docId \<mapsto> pending_job req docId)"
    and "writes (intake env req w) = writes w @ [SetDoc docId (pending_job req docId)]"
    and "store_calls (intake env req w) =
           store_calls w @ [SetDoc docId (pending_job req docId)]"
    and "uploads (intake env req w) = uploads w"
    and "generations (intake env req w) = generations w"
    and "fetches (intake env req w) = fetches w"
  using assms by (simp_all add: created_def intake_def setDoc_def Let_def)

lemma created_iff:
  "created env req w \<longleftrightarrow>
     form_userEmail req \<in> set (users w) \<and>
     fst (setDoc env (string_of_nat (now_docId env))
            (pending_job req (string_of_nat (now_docId env))) w) = Inr ()"
  by (auto simp: created_def setDoc_def Let_def split: option.splits)

text \<open>The \<^verbatim>\<open>catch\<close>, by the store's answer to its \<^verbatim>\<open>deleteDoc\<close>.\<close>

lemma catch_taken:
  assumes "store_answer env (length (store_calls w)) (DeleteDoc docId) = None"
  shows "await (deleteDoc env docId) (\<lambda>_. result (Inr r)) w =
           (Inr r, w\<lparr>store_calls := store_calls w @ [DeleteDoc docId],
                     user_ads := (user_ads w)(docId := None),
                     writes := writes w @ [DeleteDoc docId]\<rparr>)"
  using assms by (simp add: await_def deleteDoc_def result_def Let_def)

lemma catch_rejected:
  assumes "store_answer env (length (store_calls w)) (DeleteDoc docId) = Some e"
  shows "await (deleteDoc env docId) (\<lambda>_. result (Inr r)) w =
           (Inl e, w\<lparr>store_calls := store_calls w @ [DeleteDoc docId]\<rparr>)"
  using assms by (simp add: await_def deleteDoc_def result_def Let_def)


lemma POST_rejected_intake:
  assumes "form_userEmail req \<in> set (users w)"
    and "docId = string_of_nat (now_docId env)"
    and "store_answer env (length (store_calls w)) (SetDoc docId (pending_job req docId)) = Some e"
  shows "POST env req w =
           (Inl e, w\<lparr>store_calls := store_calls w @ [SetDoc docId (pending_job req docId)]\<rparr>)"
proof -
  from user_found [OF assms(1)] obtain userDoc rest where
    f: "filter (\<lambda>e. e = form_userEmail req) (users w) = userDoc # rest" by blast
  with assms(2,3) show ?thesis
    by (simp add: POST_def Let_def await_def setDoc_def)
qed

lemma POST_created:
  assumes "created env req w" and "docId = string_of_nat (now_docId env)"
  shows "POST env req w =
           (case try_block env req docId (intake env req w) of
              (Inr response, w2) \<Rightarrow> (Inr response, w2)
            | (Inl e, w2) \<Rightarrow>
                await (deleteDoc env docId) (\<lambda>_.
                  result (Inr (NextResponse_json error_payload))) w2)"
proof -
  from assms(1) have "form_userEmail req \<in> set (users w)" by (simp add: created_def)
  from user_found [OF this] obtain userDoc rest where
    f: "filter (\<lambda>e. e = form_userEmail req) (users w) = userDoc # rest" by blast
  from intake_created(1) [OF assms(1) refl] f show ?thesis
    unfolding assms(2) by (simp add: POST_def Let_def await_def)
qed

text \<open>The three ways a run ends once the document is created.\<close>

lemma POST_known_user:
  fixes env :: env and req :: form and w :: world
  assumes cr: "created env req w"
  defines "docId \<equiv> string_of_nat (now_docId env)"
  defines "w1 \<equiv> intake env req w"
  shows "(\<exists>e. fst (try_block env req docId w1) = Inl e \<and>
            store_answer env (length (store_calls (snd (try_block env req docId w1))))
              (DeleteDoc docId) = None \<and>
            fst (POST env req w) = Inr (NextResponse_json error_payload) \<and>
            users (snd (POST env req w)) = users w \<and>
            user_ads (snd (POST env req w)) = (user_ads w)(docId := None) \<and>
            writes (snd (POST env req w)) =
              writes w @ [SetDoc docId (pending_job req docId), DeleteDoc docId] \<and>
            store_calls (snd (POST env req w)) =
              store_calls (snd (try_block env req docId w1)) @ [DeleteDoc docId])
       \<or> (\<exists>e e'. fst (try_block env req docId w1) = Inl e \<and>
            store_answer env (length (store_calls (snd (try_block env req docId w1))))
              (DeleteDoc docId) = Some e' \<and>
            fst (POST env req w) = Inl e' \<and>
            users (snd (POST env req w)) = users w \<and>
            user_ads (snd (POST env req w)) = (user_ads w)(docId \<mapsto> pending_job req docId) \<and>
            writes (snd (POST env req w)) = writes w @ [SetDoc docId (pending_job req docId)] \<and>
            store_calls (snd (POST env req w)) =
              store_calls (snd (try_block env req docId w1)) @ [DeleteDoc docId])
       \<or> (\<exists>u v. fst (try_block env req docId w1) =
                   Inr (NextResponse_json (JString (js (upd_finalProductImageUrl u)))) \<and>
            POST env req w = try_block env req docId w1 \<and>
            upd_status u = ''completed'' \<and> upd_imageToVideoPrompt u = Some v \<and>
            users (snd (POST env req w)) = users w \<and>
            user_ads (snd (POST env req w)) = (user_ads w)(docId \<mapsto>
              (pending_job req docId)
                \<lparr>job_status := ''completed'',
                 job_finalProductImageUrl := Some (upd_finalProductImageUrl u),
                 job_productImageUrl := Some (upd_productImageUrl u),
                 job_imageToVideoPrompt := Some v\<rparr>) \<and>
            writes (snd (POST env req w)) =
              writes w @ [SetDoc docId (pending_job req docId), UpdateDoc docId u])"
proof -
  obtain r w2 where t: "try_block env req docId w1 = (r, w2)"
    by (cases "try_block env req docId w1")
  have c: "completes docId w1 (r, w2)"
    using try_block_completes [of docId w1 env req] t by simp
  have w1: "users w1 = users w" "user_ads w1 = (user_ads w)(docId \<mapsto> pending_job req docId)"
    "writes w1 = writes w @ [SetDoc docId (pending_job req docId)]"
    using intake_created(2-4) [OF cr docId_def [THEN meta_eq_to_obj_eq]]
    by (simp_all add: w1_def)
  note P = POST_created [OF cr docId_def [THEN meta_eq_to_obj_eq], folded w1_def, unfolded t]
  show ?thesis
  proof (cases r)
    case (Inl e)
    with c have s: "store w2 = store w1" by (simp add: completes_def)
    show ?thesis
    proof (cases "store_answer env (length (store_calls w2)) (DeleteDoc docId)")
      case None
      from P Inl catch_taken [OF None]
      have p: "POST env req w = (Inr (NextResponse_json error_payload),
          w2\<lparr>store_calls := store_calls w2 @ [DeleteDoc docId],
             user_ads := (user_ads w2)(docId := None),
             writes := writes w2 @ [DeleteDoc docId]\<rparr>)"
        by simp
      from s w1 have "users w2 = users w"
        "(user_ads w2)(docId := None) = (user_ads w)(docId := None)"
        "writes w2 @ [DeleteDoc docId] =
           writes w @ [SetDoc docId (pending_job req docId), DeleteDoc docId]"
        by (simp_all add: store_def)
      with p t Inl None show ?thesis by simp
    next
      case (Some e')
      from P Inl catch_rejected [OF Some]
      have p: "POST env req w =
          (Inl e', w2\<lparr>store_calls := store_calls w2 @ [DeleteDoc docId]\<rparr>)"
        by simp
      from s w1 have "users w2 = users w"
        "user_ads w2 = (user_ads w)(docId \<mapsto> pending_job req docId)"
        "writes w2 = writes w @ [SetDoc docId (pending_job req docId)]"
        by (simp_all add: store_def)
      with p t Inl Some show ?thesis by simp
    qed
  next
    case (Inr response)
    have p: "POST env req w = try_block env req docId w1"
      using P t Inr by simp
    from c Inr w1 obtain u v where
      "upd_imageToVideoPrompt u = Some v" "upd_status u = ''completed''"
      "response = NextResponse_json (JString (js (upd_finalProductImageUrl u)))"
      "users w2 = users w"
      "writes w2 = writes w @ [SetDoc docId (pending_job req docId), UpdateDoc docId u]"
      "user_ads w2 = (user_ads w)(docId \<mapsto>
          (pending_job req docId)
            \<lparr>job_status := ''completed'',
             job_finalProductImageUrl := Some (upd_finalProductImageUrl u),
             job_productImageUrl := Some (upd_productImageUrl u),
             job_imageToVideoPrompt := Some v\<rparr>)"
      by (auto simp: completes_def)
    with p t Inr show ?thesis by auto
  qed
qed

subsection \<open>Unknown user\<close>

text \<open>
  C10. When no document of the users collection has the request's e-mail, the handler
  throws (the \<^verbatim>\<open>TypeError\<close> of \<^verbatim>\<open>userDoc.data()\<close> on \<^verbatim>\<open>undefined\<close>) before
  \<^verbatim>\<open>setDoc\<close> and before the \<^verbatim>\<open>try\<close>: the state, and with it the store, is as it was,
  no call to a collaborator is made, and the result is the exception, not the error
  payload.
\<close>

theorem POST_unknown_user:
  assumes "form_userEmail req \<notin> set (users w)"
  shows "POST env req w = (Inl TypeError, w)"
  using assms by (rule POST_unknown_user_lemma)

theorem POST_unknown_user_witness:
  "form_userEmail (example_form (Some ''bob@example.org'') None None)
     \<notin> set (users example_world) \<and>
   POST (example_env ''{}'' (image_response None 20))
     (example_form (Some ''bob@example.org'') None None) example_world
     = (Inl TypeError, example_world)"
proof -
  have h: "form_userEmail (example_form (Some ''bob@example.org'') None None)
            \<notin> set (users example_world)"
    by (simp add: example_form_def example_world_def)
  from h POST_unknown_user [OF h] show ?thesis by simp
qed

subsection \<open>Failure cleanup\<close>

text \<open>
  C1, as the claim states it, fails: the \<^verbatim>\<open>catch\<close> awaits \<^verbatim>\<open>deleteDoc\<close>, and nothing
  catches a \<^verbatim>\<open>deleteDoc\<close> that rejects. In the example the document is created, the
  fetched product image is too small, so the \<^verbatim>\<open>try\<close> block throws, and the store
  rejects the deletion: the handler throws the store's exception instead of returning
  the payload, and the document stays in the collection as it was created.
\<close>

theorem POST_failure_cleanup_counterexample:
  "setDoc (rejecting_deleteDoc (example_env ''{}'' (image_response None 19))) ''1700''
     (pending_job (example_form ann None (Some ''https://shop.example/mug.png'')) ''1700'')
     example_world
     = (Inr (), intake (rejecting_deleteDoc (example_env ''{}'' (image_response None 19)))
                  (example_form ann None (Some ''https://shop.example/mug.png''))
                  example_world) \<and>
   fst (try_block (rejecting_deleteDoc (example_env ''{}'' (image_response None 19)))
          (example_form ann None (Some ''https://shop.example/mug.png'')) ''1700''
          (intake (rejecting_deleteDoc (example_env ''{}'' (image_response None 19)))
             (example_form ann None (Some ''https://shop.example/mug.png''))
             example_world))
     = Inl (Error ''Fetched image is empty or too small.'') \<and>
   fst (POST (rejecting_deleteDoc (example_env ''{}'' (image_response None 19)))
          (example_form ann None (Some ''https://shop.example/mug.png'')) example_world)
     = Inl (ServiceFailure ''The store is unavailable'') \<and>
   user_ads (snd (POST (rejecting_deleteDoc (example_env ''{}'' (image_response None 19)))
          (example_form ann None (Some ''https://shop.example/mug.png'')) example_world))
     ''1700''
     = Some \<lparr>job_userEmail = Some ''ann@example.org'', job_status = ''pending'',
             job_description = Some ''a mug'', job_size = Some ''1:1'',
             job_docId = ''1700'', job_finalProductImageUrl = None,
             job_productImageUrl = None, job_imageToVideoPrompt = None\<rparr>"
proof -
  let ?env = "rejecting_deleteDoc (example_env ''{}'' (image_response None 19))"
  let ?req = "example_form ann None (Some ''https://shop.example/mug.png'')"
  have d: "''1700'' = string_of_nat (now_docId ?env)" by code_simp
  have c: "created ?env ?req example_world"
    by (simp add: created_def rejecting_deleteDoc_def example_env_def example_form_def
          example_world_def ann_def)
  note intake_created(1) [OF c d]
  moreover have "fst (try_block ?env ?req ''1700'' (intake ?env ?req example_world))
      = Inl (Error ''Fetched image is empty or too small.'')"
    by code_simp
  moreover have "fst (POST ?env ?req example_world)
      = Inl (ServiceFailure ''The store is unavailable'')"
    by code_simp
  moreover have "user_ads (snd (POST ?env ?req example_world)) ''1700''
     = Some \<lparr>job_userEmail = Some ''ann@example.org'', job_status = ''pending'',
             job_description = Some ''a mug'', job_size = Some ''1:1'',
             job_docId = ''1700'', job_finalProductImageUrl = None,
             job_productImageUrl = None, job_imageToVideoPrompt = None\<rparr>"
    by code_simp
  ultimately show ?thesis by (intro conjI)
qed

text \<open>
  C1, amended. In every run in which the document was created (the user is known and
  the \<^verbatim>\<open>setDoc\<close> of intake returned) and the body of the \<^verbatim>\<open>try\<close> block throws,
  whatever the exception \<open>e\<close> and whichever step threw it, the handler sends one
  \<^verbatim>\<open>deleteDoc\<close> for \<open>docId\<close> to the store. When the store takes it, the handler
  returns the payload \<^verbatim>\<open>{error: "Please Try Again"}\<close> with status 200, the same for
  every \<open>e\<close>, and the store holds no document under \<open>docId\<close>: its writes are the
  \<^verbatim>\<open>setDoc\<close> of intake and the \<^verbatim>\<open>deleteDoc\<close> of the \<^verbatim>\<open>catch\<close>. When the store rejects
  it with \<open>e'\<close>, the handler throws \<open>e'\<close> and returns no payload, and the document of
  intake stays in the collection with the status \<^verbatim>\<open>pending\<close>.
\<close>

theorem POST_failure_cleanup:
  assumes "form_userEmail req \<in> set (users w)"
    and "docId = string_of_nat (now_docId env)"
    and "setDoc env docId (pending_job req docId) w = (Inr (), w1)"
    and "try_block env req docId w1 = (Inl e, w2)"
  shows "store_calls (snd (POST env req w)) = store_calls w2 @ [DeleteDoc docId]
       \<and> (store_answer env (length (store_calls w2)) (DeleteDoc docId) = None \<longrightarrow>
            fst (POST env req w) =
              Inr \<lparr>http_status = 200,
                   http_body = JObject [(js ''error'', JString (js ''Please Try Again''))]\<rparr>
            \<and> user_ads (snd (POST env req w)) docId = None
            \<and> user_ads (snd (POST env req w)) = (user_ads w)(docId := None)
            \<and> writes (snd (POST env req w)) =
                writes w @ [SetDoc docId (pending_job req docId), DeleteDoc docId])
       \<and> (\<forall>e'. store_answer env (length (store_calls w2)) (DeleteDoc docId) = Some e' \<longrightarrow>
            fst (POST env req w) = Inl e'
            \<and> user_ads (snd (POST env req w)) docId = Some (pending_job req docId)
            \<and> user_ads (snd (POST env req w)) = (user_ads w)(docId \<mapsto> pending_job req docId)
            \<and> writes (snd (POST env req w)) =
                writes w @ [SetDoc docId (pending_job req docId)])"
proof -
  from assms(3) have ans: "store_answer env (length (store_calls w))
      (SetDoc docId (pending_job req docId)) = None"
    by (auto simp: setDoc_def Let_def split: option.splits)
  with assms(1,2) have cr: "created env req w" by (simp add: created_def)
  from intake_created(1) [OF cr assms(2)] assms(3) have w1: "w1 = intake env req w" by simp
  from assms(4) have t: "fst (try_block env req docId (intake env req w)) = Inl e"
    "snd (try_block env req docId (intake env req w)) = w2"
    by (simp_all add: w1)
  from POST_known_user [OF cr] t show ?thesis
    unfolding assms(2) [symmetric]
    by (auto simp: NextResponse_json_def error_payload_def)
qed

theorem POST_failure_cleanup_witness:
  "form_userEmail (example_form ann None (Some ''https://shop.example/mug.png''))
     \<in> set (users example_world) \<and>
   fst (try_block (example_env ''{}'' (image_response None 19))
          (example_form ann None (Some ''https://shop.example/mug.png'')) ''1700''
          (intake (example_env ''{}'' (image_response None 19))
             (example_form ann None (Some ''https://shop.example/mug.png''))
             example_world))
     = Inl (Error ''Fetched image is empty or too small.'') \<and>
   fst (POST (example_env ''{}'' (image_response None 19))
          (example_form ann None (Some ''https://shop.example/mug.png'')) example_world)
     = Inr \<lparr>http_status = 200,
            http_body = JObject [(js ''error'', JString (js ''Please Try Again''))]\<rparr> \<and>
   user_ads (snd (POST (example_env ''{}'' (image_response None 19))
          (example_form ann None (Some ''https://shop.example/mug.png'')) example_world))
     ''1700'' = None"
proof -
  let ?env = "example_env ''{}'' (image_response None 19)"
  let ?req = "example_form ann None (Some ''https://shop.example/mug.png'')"
  have h1: "form_userEmail ?req \<in> set (users example_world)"
    by (simp add: example_form_def example_world_def ann_def)
  have h2: "''1700'' = string_of_nat (now_docId ?env)"
    by code_simp
  have c: "created ?env ?req example_world"
    by (simp add: created_def example_env_def example_form_def example_world_def ann_def)
  note h3 = intake_created(1) [OF c h2]
  have f: "fst (try_block ?env ?req ''1700'' (intake ?env ?req example_world))
              = Inl (Error ''Fetched image is empty or too small.'')"
    by code_simp
  then obtain w2 where h4: "try_block ?env ?req ''1700'' (intake ?env ?req example_world)
      = (Inl (Error ''Fetched image is empty or too small.''), w2)"
    by (cases "try_block ?env ?req ''1700'' (intake ?env ?req example_world)") auto
  have a: "store_answer ?env (length (store_calls w2)) (DeleteDoc ''1700'') = None"
    by (simp add: example_env_def)
  from h1 f a POST_failure_cleanup [OF h1 h2 h3 h4] show ?thesis by simp
qed

subsection \<open>The logs of a run\<close>

lemma awaitI:
  assumes "\<And>e w1. m w = (Inl e, w1) \<Longrightarrow> Q (Inl e, w1)"
    and "\<And>a w1. m w = (Inr a, w1) \<Longrightarrow> Q (f a w1)"
  shows "Q (await m f w)"
proof -
  obtain r w1 where m: "m w = (r, w1)" by (cases "m w")
  show ?thesis
  proof (cases r)
    case (Inl e)
    with m assms(1) [of e w1] show ?thesis by (simp add: await_def)
  next
    case (Inr a)
    with m assms(2) [of a w1] show ?thesis by (simp add: await_def)
  qed
qed

text \<open>Outside the \<^verbatim>\<open>try\<close> block the handler calls the store only: a log \<open>p\<close> that
  \<^verbatim>\<open>setDoc\<close> and \<^verbatim>\<open>deleteDoc\<close> leave alone is, after the run, what the \<^verbatim>\<open>try\<close> block
  made of it.\<close>

lemma keeps_catch:
  assumes "\<And>d. keeps p (deleteDoc env d)"
  shows "keeps p (await (deleteDoc env docId) (\<lambda>_. result (Inr r)))"
  by (rule keeps_await) (simp_all add: assms)

lemma POST_log:
  fixes env :: env and req :: form and w :: world and p :: "world \<Rightarrow> 'x"
  assumes set: "\<And>d j. keeps p (setDoc env d j)" and del: "\<And>d. keeps p (deleteDoc env d)"
  defines "docId \<equiv> string_of_nat (now_docId env)"
  shows "(\<not> created env req w \<and> p (snd (POST env req w)) = p w)
       \<or> (created env req w \<and>
           p (intake env req w) = p w \<and>
           p (snd (POST env req w)) = p (snd (try_block env req docId (intake env req w))))"
proof (cases "created env req w")
  case False
  show ?thesis
  proof (cases "form_userEmail req \<in> set (users w)")
    case unknown: False
    from POST_unknown_user_lemma [OF unknown, of env] False show ?thesis by simp
  next
    case True
    with False obtain e where "store_answer env (length (store_calls w))
        (SetDoc docId (pending_job req docId)) = Some e"
      by (auto simp: created_def docId_def)
    from POST_rejected_intake [OF True docId_def [THEN meta_eq_to_obj_eq] this]
    have "snd (POST env req w) = snd (setDoc env docId (pending_job req docId) w)"
      using \<open>store_answer env (length (store_calls w))
        (SetDoc docId (pending_job req docId)) = Some e\<close>
      by (simp add: setDoc_def Let_def)
    with set [of docId "pending_job req docId"] False show ?thesis
      by (simp add: keeps_def)
  qed
next
  case True
  note d = docId_def [THEN meta_eq_to_obj_eq]
  obtain r w2 where t: "try_block env req docId (intake env req w) = (r, w2)"
    by (cases "try_block env req docId (intake env req w)")
  have i: "p (intake env req w) = p w"
    using set [of docId "pending_job req docId"]
    by (simp add: keeps_def intake_def docId_def)
  have "p (snd (POST env req w)) = p w2"
  proof (cases r)
    case (Inl e)
    with POST_created [OF True d] t
    have "POST env req w =
        await (deleteDoc env docId) (\<lambda>_. result (Inr (NextResponse_json error_payload))) w2"
      by simp
    with keeps_catch [of p env docId "NextResponse_json error_payload", OF del]
    show ?thesis by (simp add: keeps_def)
  next
    case (Inr response)
    with POST_created [OF True d] t show ?thesis by simp
  qed
  with True t i show ?thesis by simp
qed

lemma keeps_uploads_setDoc [simp]: "keeps uploads (setDoc env d j)"
  by (simp add: keeps_def setDoc_def Let_def split: option.splits)

lemma keeps_uploads_deleteDoc [simp]: "keeps uploads (deleteDoc env d)"
  by (simp add: keeps_def deleteDoc_def Let_def split: option.splits)



lemma keeps_uploads_fetch [simp]: "keeps uploads (fetch env url)"
  by (simp add: keeps_def fetch_def)

lemma keeps_uploads_generate [simp]: "keeps uploads (generateContent env r)"
  by (simp add: keeps_def generateContent_def)

lemma keeps_uploads_updateDoc [simp]: "keeps uploads (updateDoc env docId u)"
  by (simp add: keeps_def updateDoc_def Let_def split: option.splits)

lemma keeps_uploads_urlToInlineData [simp]: "keeps uploads (urlToInlineData env url)"
  unfolding urlToInlineData_def by (rule keeps_await) simp_all

lemma keeps_uploads_product_part [simp]: "keeps uploads (product_part env u b m)"
  unfolding product_part_def by (auto split: option.splits)

lemma keeps_generations_fetch [simp]: "keeps generations (fetch env url)"
  by (simp add: keeps_def fetch_def)

lemma keeps_generations_upload [simp]: "keeps generations (imagekit_upload env r)"
  by (simp add: keeps_def imagekit_upload_def)





text \<open>The uploads of the product image that lines 144 to 156 make: one, when the
  request has no image URL and has a file.\<close>

definition product_uploads :: "env \<Rightarrow> form \<Rightarrow> upload_request list" where
  "product_uploads env req =
     (if no_imageUrl req then
        (case form_file req of None \<Rightarrow> [] | Some f \<Rightarrow> [product_upload_request env f])
      else [])"

lemma product_image_uploads:
  "product_image env req w = (r, w') \<Longrightarrow> uploads w' = uploads w @ product_uploads env req"
  by (auto simp: product_image_def product_uploads_def result_def await_def
        imagekit_upload_def split: option.splits if_splits sum.splits)

definition uploads_outcome ::
  "env \<Rightarrow> form \<Rightarrow> upload_request list \<Rightarrow> (exn + 'a) \<times> world \<Rightarrow> bool" where
  "uploads_outcome env req us out =
     (\<exists>rest. uploads (snd out) = us @ product_uploads env req @ rest \<and>
        (rest = [] \<or> (\<exists>g. rest = [generated_upload_request env g])))"

lemmas uploads_awaitI = awaitI [where Q = "uploads_outcome env req us" for env req us]

lemma avatar_step_uploads:
  "(if c then await (urlToInlineData env a) (\<lambda>avatarPart. result (Inr [avatarPart]))
    else result (Inr [])) w = (r, w') \<Longrightarrow> uploads w' = uploads w"
  by (auto simp: result_def split: if_splits elim!: awaitE
           dest!: keepsD [OF keeps_uploads_urlToInlineData])

lemma try_block_uploads: "uploads_outcome env req (uploads w) (try_block env req docId w)"
  unfolding try_block_def Let_def
  apply ((rule uploads_awaitI,
          force simp: uploads_outcome_def result_def imagekit_upload_def generateContent_def
            dest!: product_image_uploads keepsD [OF keeps_uploads_product_part]
                   keepsD [OF keeps_uploads_updateDoc] avatar_step_uploads)
         | simp only: split_paired_all prod.case)+
  apply (force simp: uploads_outcome_def result_def imagekit_upload_def generateContent_def
            dest!: product_image_uploads keepsD [OF keeps_uploads_product_part]
                   keepsD [OF keeps_uploads_updateDoc] avatar_step_uploads)
  done














subsection \<open>Successful runs\<close>




subsection \<open>The life of a job document\<close>



subsection \<open>The instruction template and the avatar\<close>















subsection \<open>Uploads of the product image\<close>

lemma string_of_nat_digits:
  "string_of_nat n \<noteq> [] \<and> hd (string_of_nat n) \<in> set ''0123456789''"
proof (induction n rule: string_of_nat.induct)
  case (1 n)
  show ?case
  proof (cases "n < 10")
    case True
    then have "n \<in> {0, 1, 2, 3, 4, 5, 6, 7, 8, 9}" by auto
    then show ?thesis
      by (subst string_of_nat.simps, subst (2) string_of_nat.simps) auto
  next
    case False
    with "1.IH" show ?thesis
      by (subst string_of_nat.simps, subst (2) string_of_nat.simps) simp
  qed
qed

lemma upload_requests_differ:
  "product_upload_request env f \<noteq> generated_upload_request env' g"
proof
  assume "product_upload_request env f = generated_upload_request env' g"
  then have "string_of_nat (now_fileName env) @ ''.png'' =
      ''generate-'' @ string_of_nat (now_generated env') @ ''.png''"
    by (simp add: product_upload_request_def generated_upload_request_def)
  then have "hd (string_of_nat (now_fileName env) @ ''.png'') = CHR ''g''" by simp
  with string_of_nat_digits [of "now_fileName env"] show False
    by (auto simp: hd_append)
qed

text \<open>
  C9, as the claim states it, fails in two kinds of run. When the request carries
  both a file and an image URL, the handler takes the URL and the file is never
  uploaded; when the user is unknown, the handler throws before it looks at the file.
  In the first example the only upload is that of the generated image, in the second
  there is none, though both requests carry a file.
\<close>

theorem POST_product_upload_counterexample:
  "form_file (example_form ann None (Some ''https://shop.example/mug.png'')) \<noteq> None \<and>
   uploads (snd (POST (example_env ''{}'' (image_response None 20))
                   (example_form ann None (Some ''https://shop.example/mug.png''))
                   example_world))
     = [\<lparr>up_file = ''data:image/png;base64,QUJD'', up_fileName = ''generate-1702.png'',
         up_isPublished = True\<rparr>] \<and>
   form_file (example_form (Some ''bob@example.org'') None None) \<noteq> None \<and>
   form_imageUrl (example_form (Some ''bob@example.org'') None None) = None \<and>
   uploads (snd (POST (example_env ''{}'' (image_response None 20))
                   (example_form (Some ''bob@example.org'') None None) example_world))
     = []"
  by code_simp

text \<open>
  C9, amended. The uploads of a run are, in this order, the uploads of the product
  image and then at most one upload of the generated image. The product image is
  uploaded exactly once when the user is known, the \<^verbatim>\<open>setDoc\<close> of intake returns,
  the request passes no image URL (the field is absent or empty) and carries a file;
  it is not uploaded when the request passes an image URL, with or without a file,
  nor when the user is unknown or the \<^verbatim>\<open>setDoc\<close> of intake throws: such a run
  uploads nothing at all. An upload of the product image is never an upload of a
  generated image: the file names differ.
\<close>

theorem POST_product_upload:
  "\<exists>rest.
     uploads (snd (POST env req w)) =
       uploads w @
       (if form_userEmail req \<in> set (users w) \<and>
           fst (setDoc env (string_of_nat (now_docId env))
                  (pending_job req (string_of_nat (now_docId env))) w) = Inr () \<and>
           (form_imageUrl req = None \<or> form_imageUrl req = Some [])
        then (case form_file req of
                None \<Rightarrow> []
              | Some f \<Rightarrow>
                  [\<lparr>up_file = base64 (file_bytes f),
                    up_fileName = string_of_nat (now_fileName env) @ ''.png'',
                    up_isPublished = True\<rparr>])
        else []) @ rest \<and>
     (rest = [] \<or>
      form_userEmail req \<in> set (users w) \<and>
      fst (setDoc env (string_of_nat (now_docId env))
             (pending_job req (string_of_nat (now_docId env))) w) = Inr () \<and>
      (\<exists>generatedImage. rest = [generated_upload_request env generatedImage])) \<and>
     (\<forall>(f :: form_file_value) generatedImage.
        \<lparr>up_file = base64 (file_bytes f),
         up_fileName = string_of_nat (now_fileName env) @ ''.png'',
         up_isPublished = True\<rparr> \<noteq> generated_upload_request env generatedImage)"
proof -
  have d: "\<forall>(f :: form_file_value) generatedImage.
        \<lparr>up_file = base64 (file_bytes f),
         up_fileName = string_of_nat (now_fileName env) @ ''.png'',
         up_isPublished = True\<rparr> \<noteq> generated_upload_request env generatedImage"
  proof (intro allI)
    fix f :: form_file_value and generatedImage
    from upload_requests_differ [of env f env generatedImage]
    show "\<lparr>up_file = base64 (file_bytes f),
         up_fileName = string_of_nat (now_fileName env) @ ''.png'',
         up_isPublished = True\<rparr> \<noteq> generated_upload_request env generatedImage"
      by (simp add: product_upload_request_def)
  qed
  have pu: "product_uploads env req =
      (if form_imageUrl req = None \<or> form_imageUrl req = Some []
        then (case form_file req of
                None \<Rightarrow> []
              | Some f \<Rightarrow>
                  [\<lparr>up_file = base64 (file_bytes f),
                    up_fileName = string_of_nat (now_fileName env) @ ''.png'',
                    up_isPublished = True\<rparr>])
        else [])"
    by (auto simp: product_uploads_def no_imageUrl_def product_upload_request_def
          split: option.splits)
  from POST_log [of uploads env req w, OF keeps_uploads_setDoc keeps_uploads_deleteDoc]
  consider "\<not> created env req w"
      "uploads (snd (POST env req w)) = uploads w"
    | "created env req w"
      "uploads (intake env req w) = uploads w"
      "uploads (snd (POST env req w)) =
         uploads (snd (try_block env req (string_of_nat (now_docId env)) (intake env req w)))"
    by auto
  then show ?thesis
  proof cases
    case 1
    with d show ?thesis unfolding created_iff [symmetric] conj_assoc [symmetric] by simp
  next
    case 2
    from try_block_uploads [of env req "intake env req w" "string_of_nat (now_docId env)"] 2
    obtain rest where "uploads (snd (POST env req w)) = uploads w @ product_uploads env req @ rest"
      "rest = [] \<or> (\<exists>g. rest = [generated_upload_request env g])"
      by (auto simp: uploads_outcome_def)
    with 2(1) d show ?thesis
      unfolding pu created_iff [symmetric] conj_assoc [symmetric] by auto
  qed
qed

subsection \<open>The MIME type of a fetched image\<close>

lemma suffix_last:
  "suffix (p @ [c]) s \<Longrightarrow> suffix (q @ [d]) s \<Longrightarrow> c = d"
  by (auto simp: suffix_def)

text \<open>
  C4. When the fetch answers with a successful response of at least 20 bytes,
  \<^verbatim>\<open>urlToInlineData\<close> returns the body in base64 with this MIME type: the
  \<^verbatim>\<open>content-type\<close> header when the header starts with \<^verbatim>\<open>image/\<close>; otherwise, by the
  end of the URL in lower case, \<^verbatim>\<open>image/jpeg\<close> for \<^verbatim>\<open>.jpg\<close> and \<^verbatim>\<open>.jpeg\<close>,
  \<^verbatim>\<open>image/webp\<close> for \<^verbatim>\<open>.webp\<close>, \<^verbatim>\<open>image/gif\<close> for \<^verbatim>\<open>.gif\<close>, and \<^verbatim>\<open>image/png\<close> for
  everything else. In particular, without an image header a URL that ends in
  \<^verbatim>\<open>.webp\<close> gives \<^verbatim>\<open>image/webp\<close> and a URL that ends in \<^verbatim>\<open>.xyz\<close> gives
  \<^verbatim>\<open>image/png\<close>.
\<close>

theorem urlToInlineData_mimeType:
  assumes "fetch_answer env (length (fetches w)) url = Inr res"
    and "res_ok res" and "20 \<le> length (res_body res)"
  shows "\<exists>mimeType.
           fst (urlToInlineData env url w) = Inr (InlineData (base64 (res_body res)) mimeType) \<and>
           (let lower = toLowerCase url;
                image_header = (\<exists>c. res_content_type res = Some c \<and> prefix ''image/'' c)
            in (image_header \<longrightarrow> res_content_type res = Some mimeType) \<and>
               (\<not> image_header \<longrightarrow>
                  mimeType =
                    (if suffix ''.jpg'' lower \<or> suffix ''.jpeg'' lower then ''image/jpeg''
                     else if suffix ''.webp'' lower then ''image/webp''
                     else if suffix ''.gif'' lower then ''image/gif''
                     else ''image/png'')) \<and>
               (\<not> image_header \<and> suffix ''.webp'' lower \<longrightarrow> mimeType = ''image/webp'') \<and>
               (\<not> image_header \<and> suffix ''.xyz'' lower \<longrightarrow> mimeType = ''image/png''))"
proof -
  let ?lower = "toLowerCase url"
  have r: "fst (urlToInlineData env url w) =
      Inr (InlineData (base64 (res_body res)) (mimeType_of (res_content_type res) url))"
    using assms by (simp add: urlToInlineData_def await_def fetch_def result_def)
  have webp: "\<not> suffix ''.jpg'' ?lower \<and> \<not> suffix ''.jpeg'' ?lower"
    if "suffix ''.webp'' ?lower"
    using suffix_last [of "''.web''" "CHR ''p''" ?lower "''.jp''" "CHR ''g''"]
      suffix_last [of "''.web''" "CHR ''p''" ?lower "''.jpe''" "CHR ''g''"] that
    by auto
  have xyz: "\<not> suffix ''.jpg'' ?lower \<and> \<not> suffix ''.jpeg'' ?lower \<and>
      \<not> suffix ''.webp'' ?lower \<and> \<not> suffix ''.gif'' ?lower"
    if "suffix ''.xyz'' ?lower"
    using suffix_last [of "''.xy''" "CHR ''z''" ?lower "''.jp''" "CHR ''g''"]
      suffix_last [of "''.xy''" "CHR ''z''" ?lower "''.jpe''" "CHR ''g''"]
      suffix_last [of "''.xy''" "CHR ''z''" ?lower "''.web''" "CHR ''p''"]
      suffix_last [of "''.xy''" "CHR ''z''" ?lower "''.gi''" "CHR ''f''"] that
    by auto
  show ?thesis
  proof (cases "\<exists>c. res_content_type res = Some c \<and> prefix ''image/'' c")
    case True
    then have "res_content_type res = Some (mimeType_of (res_content_type res) url)"
      by (auto simp: mimeType_of_def startsWith_def)
    with r True show ?thesis by (auto simp: Let_def)
  next
    case False
    then have eq: "mimeType_of (res_content_type res) url =
        (if suffix ''.jpg'' ?lower \<or> suffix ''.jpeg'' ?lower then ''image/jpeg''
         else if suffix ''.webp'' ?lower then ''image/webp''
         else if suffix ''.gif'' ?lower then ''image/gif''
         else ''image/png'')"
      by (cases "res_content_type res")
         (simp_all add: mimeType_of_def startsWith_def endsWith_def Let_def)
    from False have ih: "(\<exists>c. res_content_type res = Some c \<and> prefix ''image/'' c) = False"
      by simp
    show ?thesis
      unfolding Let_def ih
    proof (rule exI [of _ "mimeType_of (res_content_type res) url"], intro conjI impI)
      show "fst (urlToInlineData env url w) =
          Inr (InlineData (base64 (res_body res)) (mimeType_of (res_content_type res) url))"
        by (rule r)
    next
      assume False
      then show "res_content_type res = Some (mimeType_of (res_content_type res) url)" ..
    next
      show "mimeType_of (res_content_type res) url =
        (if suffix ''.jpg'' ?lower \<or> suffix ''.jpeg'' ?lower then ''image/jpeg''
         else if suffix ''.webp'' ?lower then ''image/webp''
         else if suffix ''.gif'' ?lower then ''image/gif''
         else ''image/png'')"
        by (rule eq)
    next
      assume "\<not> False \<and> suffix ''.webp'' ?lower"
      with webp eq show "mimeType_of (res_content_type res) url = ''image/webp''" by simp
    next
      assume "\<not> False \<and> suffix ''.xyz'' ?lower"
      with xyz eq show "mimeType_of (res_content_type res) url = ''image/png''" by simp
    qed
  qed
qed

theorem urlToInlineData_mimeType_witness:
  "fetch_answer (example_env ''{}'' (image_response (Some ''text/html'') 20))
     (length (fetches example_world)) ''https://shop.example/MUG.WEBP''
     = Inr (image_response (Some ''text/html'') 20) \<and>
   res_ok (image_response (Some ''text/html'') 20) \<and>
   20 \<le> length (res_body (image_response (Some ''text/html'') 20)) \<and>
   suffix ''.webp'' (toLowerCase ''https://shop.example/MUG.WEBP'') \<and>
   fst (urlToInlineData (example_env ''{}'' (image_response (Some ''text/html'') 20))
          ''https://shop.example/MUG.WEBP'' example_world)
     = Inr (InlineData (base64 (res_body (image_response (Some ''text/html'') 20)))
              ''image/webp'')"
proof -
  let ?res = "image_response (Some ''text/html'') 20"
  let ?env = "example_env ''{}'' ?res"
  let ?url = "''https://shop.example/MUG.WEBP''"
  have h1: "fetch_answer ?env (length (fetches example_world)) ?url = Inr ?res"
    by (simp add: example_env_def)
  have h2: "res_ok ?res" by (simp add: image_response_def)
  have h3: "20 \<le> length (res_body ?res)" by (simp add: image_response_def)
  have h4: "suffix ''.webp'' (toLowerCase ?url)" by code_simp
  have h5: "\<not> (\<exists>c. res_content_type ?res = Some c \<and> prefix ''image/'' c)"
    by (simp add: image_response_def)
  from urlToInlineData_mimeType [OF h1 h2 h3] h4 h5 h1 h2 h3 show ?thesis
    by (auto simp: Let_def)
qed

subsection \<open>Images that are too small\<close>





subsection \<open>Facts about the string methods\<close>

lemma has_substring_sublist: "has_substring s p = sublist p s"
  by (induction s) (simp_all add: sublist_Cons_right)

text \<open>\<^verbatim>\<open>replace\<close> leaves a text without the pattern as it is, and otherwise replaces
  the occurrence before which no occurrence starts.\<close>

lemma replace_absent: "\<not> sublist p s \<Longrightarrow> replace s p r = s"
proof (induction s)
  case Nil
  then show ?case by auto
next
  case (Cons c cs)
  then have "\<not> prefix p (c # cs)" "\<not> sublist p cs"
    by (simp_all add: sublist_Cons_right)
  with Cons.IH show ?case by simp
qed

lemma replace_first:
  assumes "\<And>i. i < length u \<Longrightarrow> \<not> prefix p (drop i u @ p @ v)"
  shows "replace (u @ p @ v) p r = u @ r @ v"
  using assms
proof (induction u)
  case Nil
  show ?case
  proof (cases "p @ v")
    case Nil
    then show ?thesis by simp
  next
    case (Cons c cs)
    have "prefix p (c # cs)" unfolding Cons [symmetric] by simp
    moreover have "drop (length p) (c # cs) = v" unfolding Cons [symmetric] by simp
    ultimately have "replace (c # cs) p r = r @ v" by simp
    then show ?thesis unfolding Cons [symmetric] by simp
  qed
next
  case (Cons a u)
  from Cons.prems [of 0] have "\<not> prefix p (a # (u @ p @ v))" by simp
  moreover have "replace (u @ p @ v) p r = u @ r @ v"
  proof (rule Cons.IH)
    fix i assume "i < length u"
    with Cons.prems [of "Suc i"] show "\<not> prefix p (drop i u @ p @ v)" by simp
  qed
  ultimately show ?case by simp
qed

lemma replace_head: "replace (p @ v) p r = r @ v"
  using replace_first [of "[]" p v r] by simp

text \<open>The closing fence is the first fence of a text that holds no fence and does
  not end in a backquote.\<close>

lemma no_early_fence:
  assumes "\<not> sublist ''```'' u" and "u = [] \<or> last u \<noteq> CHR 0x60" and "i < length u"
  shows "\<not> prefix ''```'' (drop i u @ ''```'' @ v)"
proof
  assume p: "prefix ''```'' (drop i u @ ''```'' @ v)"
  from assms(3) obtain x d where d: "drop i u = x # d"
    by (cases "drop i u") auto
  from assms(3) have l: "last (drop i u) = last u" by simp
  from assms(2,3) have nb: "last u \<noteq> CHR 0x60" by auto
  show False
  proof (cases d)
    case Nil
    with p d have "x = CHR 0x60" by auto
    moreover from l d Nil have "last u = x" by simp
    ultimately show False using nb by simp
  next
    case c2: (Cons y d2)
    show False
    proof (cases d2)
      case Nil
      with p d c2 have "y = CHR 0x60" by auto
      moreover from l d c2 Nil have "last u = y" by simp
      ultimately show False using nb by simp
    next
      case (Cons z d3)
      with p d c2 have "prefix ''```'' (drop i u)" by auto
      then obtain b where "drop i u = ''```'' @ b" by (auto simp: prefix_def)
      then have "u = take i u @ ''```'' @ b" by (metis append_take_drop_id)
      then have "sublist ''```'' u" unfolding sublist_def by blast
      with assms(1) show False by simp
    qed
  qed
qed

lemma replace_closing_fence:
  assumes "\<not> sublist ''```'' u" and "u = [] \<or> last u \<noteq> CHR 0x60"
  shows "replace (u @ ''```'' @ v) ''```'' r = u @ r @ v"
  by (rule replace_first) (rule no_early_fence [OF assms])

text \<open>\<^verbatim>\<open>trim\<close> takes the white space off both ends.\<close>

lemma trim_core:
  assumes "\<forall>c\<in>set w1. is_js_space c" and "\<forall>c\<in>set w2. is_js_space c"
    and "core \<noteq> []" and "\<not> is_js_space (hd core)" and "\<not> is_js_space (last core)"
  shows "trim (w1 @ core @ w2) = core"
proof -
  from assms(3,4) have "dropWhile is_js_space (core @ w2) = core @ w2"
    by (cases core) auto
  moreover from assms(1) have "dropWhile is_js_space (w1 @ core @ w2) =
      dropWhile is_js_space (core @ w2)"
    by (intro dropWhile_append2) simp
  ultimately have 1: "dropWhile is_js_space (w1 @ core @ w2) = core @ w2" by simp
  from assms(3,5) have "dropWhile is_js_space (rev core) = rev core"
    by (cases "rev core") (auto simp: last_rev [symmetric] simp del: last_rev)
  moreover from assms(2) have "dropWhile is_js_space (rev w2 @ rev core) =
      dropWhile is_js_space (rev core)"
    by (intro dropWhile_append2) simp
  ultimately have 2: "dropWhile is_js_space (rev w2 @ rev core) = rev core" by simp
  show ?thesis by (simp add: trim_def 1 2)
qed

lemma trim_core_only:
  assumes "core \<noteq> []" and "\<not> is_js_space (hd core)" and "\<not> is_js_space (last core)"
  shows "trim core = core"
  using trim_core [of "[]" "[]" core] assms by simp

subsection \<open>Facts about the brace match\<close>

lemma upto_last_brace_None: "CHR ''}'' \<notin> set s \<Longrightarrow> upto_last_brace s = None"
  by (induction s) auto

lemma upto_last_brace_Some:
  "CHR ''}'' \<notin> set s \<Longrightarrow> upto_last_brace (m @ CHR ''}'' # s) = Some (m @ [CHR ''}''])"
  by (induction m) (simp_all add: upto_last_brace_None)

lemma upto_last_brace_SomeD:
  "upto_last_brace s = Some x \<Longrightarrow>
     \<exists>m r. x = m @ [CHR ''}''] \<and> s = x @ r \<and> CHR ''}'' \<notin> set r"
proof (induction s arbitrary: x)
  case Nil
  then show ?case by simp
next
  case (Cons c cs)
  show ?case
  proof (cases "upto_last_brace cs")
    case None
    with Cons.prems have c: "c = CHR ''}''" and x: "x = [c]"
      by (auto split: if_splits)
    have "CHR ''}'' \<notin> set cs"
    proof
      assume "CHR ''}'' \<in> set cs"
      then obtain a b where "cs = a @ CHR ''}'' # b" "CHR ''}'' \<notin> set b"
        by (metis split_list_last)
      with upto_last_brace_Some [of b a] None show False by simp
    qed
    with c x show ?thesis by auto
  next
    case (Some y)
    with Cons.prems have x: "x = c # y" by simp
    from Cons.IH [OF Some] obtain m r where
      "y = m @ [CHR ''}'']" "cs = y @ r" "CHR ''}'' \<notin> set r" by blast
    with x have "x = (c # m) @ [CHR ''}''] \<and> c # cs = x @ r \<and> CHR ''}'' \<notin> set r" by simp
    then show ?thesis by blast
  qed
qed

text \<open>The match is the part of the text from its first \<^verbatim>\<open>{\<close> to its last \<^verbatim>\<open>}\<close>.\<close>

lemma match_braces_Some:
  "CHR ''{'' \<notin> set p \<Longrightarrow> CHR ''}'' \<notin> set s \<Longrightarrow>
     match_braces (p @ CHR ''{'' # m @ CHR ''}'' # s) = Some (CHR ''{'' # m @ [CHR ''}''])"
  by (induction p) (auto simp: upto_last_brace_Some)

lemma match_braces_SomeD:
  "match_braces str = Some x \<Longrightarrow>
     \<exists>p m s. str = p @ CHR ''{'' # m @ CHR ''}'' # s \<and> x = CHR ''{'' # m @ [CHR ''}''] \<and>
       CHR ''{'' \<notin> set p \<and> CHR ''}'' \<notin> set s"
proof (induction str arbitrary: x)
  case Nil
  then show ?case by simp
next
  case (Cons c cs)
  have later: ?case if "match_braces cs = Some x" "c \<noteq> CHR ''{''"
  proof -
    from Cons.IH [OF that(1)] obtain p m s where
      "cs = p @ CHR ''{'' # m @ CHR ''}'' # s" "x = CHR ''{'' # m @ [CHR ''}'']"
      "CHR ''{'' \<notin> set p" "CHR ''}'' \<notin> set s" by blast
    with that(2) have "c # cs = (c # p) @ CHR ''{'' # m @ CHR ''}'' # s \<and>
        x = CHR ''{'' # m @ [CHR ''}''] \<and> CHR ''{'' \<notin> set (c # p) \<and> CHR ''}'' \<notin> set s"
      by simp
    then show ?thesis by blast
  qed
  show ?case
  proof (cases "c = CHR ''{''")
    case False
    with Cons.prems later show ?thesis by simp
  next
    case True
    show ?thesis
    proof (cases "upto_last_brace cs")
      case None
      then have "CHR ''}'' \<notin> set cs"
        by (metis option.distinct(1) split_list_last upto_last_brace_Some)
      have "match_braces cs = None"
      proof (rule ccontr)
        assume "match_braces cs \<noteq> None"
        then obtain y where "match_braces cs = Some y" by auto
        from Cons.IH [of y] this Cons.prems True None
        obtain p m s where "cs = p @ CHR ''{'' # m @ CHR ''}'' # s" by auto
        with \<open>CHR ''}'' \<notin> set cs\<close> show False by simp
      qed
      with Cons.prems True None show ?thesis by simp
    next
      case (Some y)
      with Cons.prems True have x: "x = c # y" by simp
      from upto_last_brace_SomeD [OF Some] obtain m r where
        "y = m @ [CHR ''}'']" "cs = y @ r" "CHR ''}'' \<notin> set r" by blast
      with x True have "c # cs = [] @ CHR ''{'' # m @ CHR ''}'' # r \<and>
          x = CHR ''{'' # m @ [CHR ''}''] \<and> CHR ''{'' \<notin> set [] \<and> CHR ''}'' \<notin> set r"
        by simp
      then show ?thesis by blast
    qed
  qed
qed

lemma match_braces_None:
  "\<not> (\<exists>p m s. str = p @ CHR ''{'' # m @ CHR ''}'' # s) \<Longrightarrow> match_braces str = None"
  by (metis match_braces_SomeD not_Some_eq)

subsection \<open>\<^verbatim>\<open>extractJson\<close>: direct parse, brace match, and the two errors\<close>

text \<open>
  C7, as the claim states it, fails in two ways. When the text between the first
  \<^verbatim>\<open>{\<close> and the last \<^verbatim>\<open>}\<close> is not JSON, \<^verbatim>\<open>extractJson\<close> does not throw its own
  \<^verbatim>\<open>Error("No JSON found in model output")\<close>: the second \<^verbatim>\<open>JSON.parse\<close> stands outside
  the \<^verbatim>\<open>try\<close>, and its \<^verbatim>\<open>SyntaxError\<close> leaves the function. And a JSON object in
  prose is not found when the prose has a brace of its own: the match then runs from
  the brace of the prose.
\<close>

theorem extractJson_counterexample:
  "JSON_parse ''{x}'' = None \<and>
   match_braces ''{x}'' = Some ''{x}'' \<and>
   extractJson ''{x}'' = Inl SyntaxError \<and>
   SyntaxError \<noteq> Error ''No JSON found in model output'' \<and>
   JSON_parse ''{\"a\":1}'' = Some (JObject [(js ''a'', JNumber ''1'')]) \<and>
   match_braces ''see {this}: {\"a\":1}'' = Some ''{this}: {\"a\":1}'' \<and>
   extractJson ''see {this}: {\"a\":1}'' = Inl SyntaxError"
  by code_simp

text \<open>
  C7, amended. \<^verbatim>\<open>extractJson\<close> returns the value of the direct parse when the text
  is JSON. Otherwise, when the text has no \<^verbatim>\<open>{\<close> with a \<^verbatim>\<open>}\<close> after it, it throws
  \<^verbatim>\<open>Error("No JSON found in model output")\<close>; and when the text is \<open>p\<close>, \<^verbatim>\<open>{\<close>, \<open>m\<close>,
  \<^verbatim>\<open>}\<close>, \<open>s\<close> with no \<^verbatim>\<open>{\<close> in \<open>p\<close> and no \<^verbatim>\<open>}\<close> in \<open>s\<close>, the match is the part
  from that first \<^verbatim>\<open>{\<close> to that last \<^verbatim>\<open>}\<close>, and \<^verbatim>\<open>extractJson\<close> returns its value when
  it is JSON and throws the \<^verbatim>\<open>SyntaxError\<close> of \<^verbatim>\<open>JSON.parse\<close> when it is not. So an
  object in prose is parsed when the prose before it has no \<^verbatim>\<open>{\<close> and the prose
  after it has no \<^verbatim>\<open>}\<close>.
\<close>

theorem extractJson_cases:
  "(\<forall>v. JSON_parse str = Some v \<longrightarrow> extractJson str = Inr v)
   \<and> (JSON_parse str = None \<and> \<not> (\<exists>p m s. str = p @ CHR ''{'' # m @ CHR ''}'' # s) \<longrightarrow>
        extractJson str = Inl (Error ''No JSON found in model output''))
   \<and> (\<forall>p m s.
        JSON_parse str = None \<and> str = p @ CHR ''{'' # m @ CHR ''}'' # s \<and>
        CHR ''{'' \<notin> set p \<and> CHR ''}'' \<notin> set s \<longrightarrow>
        match_braces str = Some (CHR ''{'' # m @ ''}'') \<and>
        extractJson str =
          (case JSON_parse (CHR ''{'' # m @ ''}'') of
             Some v \<Rightarrow> Inr v
           | None \<Rightarrow> Inl SyntaxError))"
proof (intro conjI allI impI)
  fix v assume "JSON_parse str = Some v"
  then show "extractJson str = Inr v" by (simp add: extractJson_def)
next
  assume "JSON_parse str = None \<and> \<not> (\<exists>p m s. str = p @ CHR ''{'' # m @ CHR ''}'' # s)"
  then have "JSON_parse str = None" "match_braces str = None"
    by (simp_all add: match_braces_None)
  then show "extractJson str = Inl (Error ''No JSON found in model output'')"
    by (simp add: extractJson_def)
next
  fix p m s
  assume a: "JSON_parse str = None \<and> str = p @ CHR ''{'' # m @ CHR ''}'' # s \<and>
        CHR ''{'' \<notin> set p \<and> CHR ''}'' \<notin> set s"
  then have n: "JSON_parse str = None" and e: "str = p @ CHR ''{'' # m @ CHR ''}'' # s"
    and b: "CHR ''{'' \<notin> set p" "CHR ''}'' \<notin> set s"
    by blast+
  show mb: "match_braces str = Some (CHR ''{'' # m @ ''}'')"
    unfolding e by (rule match_braces_Some [OF b])
  show "extractJson str =
          (case JSON_parse (CHR ''{'' # m @ ''}'') of
             Some v \<Rightarrow> Inr v
           | None \<Rightarrow> Inl SyntaxError)"
    unfolding extractJson_def n mb by simp
qed

theorem extractJson_cases_witness:
  "JSON_parse ''Here it is: {\"a\":1} - enjoy'' = None \<and>
   extractJson ''Here it is: {\"a\":1} - enjoy'' = Inr (JObject [(js ''a'', JNumber ''1'')]) \<and>
   JSON_parse ''no braces here'' = None \<and>
   extractJson ''no braces here'' = Inl (Error ''No JSON found in model output'')"
proof -
  have n1: "JSON_parse ''Here it is: {\"a\":1} - enjoy'' = None" by code_simp
  have d1: "''Here it is: {\"a\":1} - enjoy'' =
      ''Here it is: '' @ CHR ''{'' # ''\"a\":1'' @ CHR ''}'' # '' - enjoy''"
    by simp
  have b1: "CHR ''{'' \<notin> set ''Here it is: ''" "CHR ''}'' \<notin> set '' - enjoy''"
    by simp_all
  have v1: "JSON_parse (CHR ''{'' # ''\"a\":1'' @ ''}'') = Some (JObject [(js ''a'', JNumber ''1'')])"
    by code_simp
  from extractJson_cases [of "''Here it is: {\"a\":1} - enjoy''"] n1 d1 b1
  have "extractJson ''Here it is: {\"a\":1} - enjoy'' =
      (case JSON_parse (CHR ''{'' # ''\"a\":1'' @ ''}'') of
         Some v \<Rightarrow> Inr v
       | None \<Rightarrow> Inl SyntaxError)"
    by blast
  with v1 have e1: "extractJson ''Here it is: {\"a\":1} - enjoy'' =
      Inr (JObject [(js ''a'', JNumber ''1'')])"
    by simp
  have n2: "JSON_parse ''no braces here'' = None" by code_simp
  have b2: "\<not> (\<exists>p m s. ''no braces here'' = p @ CHR ''{'' # m @ CHR ''}'' # s)"
  proof
    assume "\<exists>p m s. ''no braces here'' = p @ CHR ''{'' # m @ CHR ''}'' # s"
    then obtain p m s where "''no braces here'' = p @ CHR ''{'' # m @ CHR ''}'' # s" by blast
    then have "CHR ''{'' \<in> set ''no braces here''" by (metis in_set_conv_decomp)
    then show False by simp
  qed
  from extractJson_cases [of "''no braces here''"] n2 b2
  have e2: "extractJson ''no braces here'' = Inl (Error ''No JSON found in model output'')"
    by blast
  from n1 e1 n2 e2 show ?thesis by simp
qed

end
